theory Spec2Isabelle
  imports Main
begin

section \<open>JavaScript values\<close>

text \<open>
  The adapter handles loosely typed values (\<^verbatim>\<open>any\<close>): tool-call arguments parsed by
  \<^verbatim>\<open>JSON.parse\<close>, function-response payloads, the request's \<^verbatim>\<open>config\<close> record.
  They are JSON values here. An object is an association list in insertion order, a
  number is an integer (fractions and exponents are outside the model), and a string is
  a list of characters standing for JavaScript's UTF-16 code units, so that
  \<^verbatim>\<open>s.length\<close> is \<open>length s\<close>.
\<close>

datatype json =
    JNull
  | JBool bool
  | JNumber int
  | JString string
  | JArray "json list"
  | JObject "(string \<times> json) list"

text \<open>
  An optional string read in a boolean position (\<^verbatim>\<open>if (x)\<close>, \<^verbatim>\<open>x || y\<close>): \<^verbatim>\<open>undefined\<close>
  and the empty string are falsy.
\<close>

definition truthy :: "string option \<Rightarrow> bool" where
  "truthy x = (case x of None \<Rightarrow> False | Some s \<Rightarrow> s \<noteq> [])"

text \<open>\<^verbatim>\<open>x || ''\<close> for an optional string \<open>x\<close>.\<close>

definition orEmpty :: "string option \<Rightarrow> string" where
  "orEmpty x = (case x of None \<Rightarrow> [] | Some s \<Rightarrow> s)"

section \<open>The streaming normalizer: \<^verbatim>\<open>generateContentStream\<close> of openaiAdapter.ts\<close>

subsection \<open>Provider chunks\<close>

text \<open>
  A chunk of the chat-completions stream, with the fields the generator reads:
  \<^verbatim>\<open>chunk.choices[0]?.delta?.tool_calls\<close>, \<^verbatim>\<open>chunk.choices[0]?.delta?.content\<close> and
  \<^verbatim>\<open>chunk.choices[0]?.finish_reason\<close>. Every optional field is an \<open>option\<close>
  (\<open>None\<close> for \<^verbatim>\<open>undefined\<close> or \<^verbatim>\<open>null\<close>).
\<close>

record function_delta =
  fd_name :: "string option"
  fd_arguments :: "string option"

record tool_call_delta =
  tcd_index :: int
  tcd_id :: "string option"
  tcd_function :: "function_delta option"

record delta =
  d_tool_calls :: "tool_call_delta list option"
  d_content :: "string option"

record choice =
  ch_delta :: "delta option"
  ch_finish_reason :: "string option"

record chunk =
  choices :: "choice list"

text \<open>\<^verbatim>\<open>chunk.choices[0]\<close>: \<^verbatim>\<open>undefined\<close> when the array is empty.\<close>

definition choice0 :: "chunk \<Rightarrow> choice option" where
  "choice0 c = (case choices c of [] \<Rightarrow> None | x # _ \<Rightarrow> Some x)"

definition chunk_delta :: "chunk \<Rightarrow> delta option" where
  "chunk_delta c = (case choice0 c of None \<Rightarrow> None | Some x \<Rightarrow> ch_delta x)"

definition chunk_tool_calls :: "chunk \<Rightarrow> tool_call_delta list option" where
  "chunk_tool_calls c = (case chunk_delta c of None \<Rightarrow> None | Some d \<Rightarrow> d_tool_calls d)"

definition chunk_content :: "chunk \<Rightarrow> string option" where
  "chunk_content c = (case chunk_delta c of None \<Rightarrow> None | Some d \<Rightarrow> d_content d)"

definition chunk_finish_reason :: "chunk \<Rightarrow> string option" where
  "chunk_finish_reason c = (case choice0 c of None \<Rightarrow> None | Some x \<Rightarrow> ch_finish_reason x)"

text \<open>\<^verbatim>\<open>toolCall.function?.name\<close> and \<^verbatim>\<open>toolCall.function?.arguments\<close>.\<close>

definition delta_name :: "tool_call_delta \<Rightarrow> string option" where
  "delta_name t = (case tcd_function t of None \<Rightarrow> None | Some f \<Rightarrow> fd_name f)"

definition delta_arguments :: "tool_call_delta \<Rightarrow> string option" where
  "delta_arguments t = (case tcd_function t of None \<Rightarrow> None | Some f \<Rightarrow> fd_arguments f)"

subsection \<open>The fragment buffer and the merge by index\<close>

text \<open>An entry of \<^verbatim>\<open>toolCallsBuffer\<close>: \<^verbatim>\<open>{index, function: {name, arguments}, id}\<close>.\<close>

record buffered_function =
  bf_name :: string
  bf_arguments :: string

record buffered_call =
  bc_index :: int
  bc_function :: buffered_function
  bc_id :: "string option"

text \<open>\<^verbatim>\<open>Array.prototype.findIndex\<close>: the first position whose entry satisfies \<open>P\<close>, or \<open>-1\<close>.\<close>

fun findIndex :: "('a \<Rightarrow> bool) \<Rightarrow> 'a list \<Rightarrow> int" where
  "findIndex P [] = - 1"
| "findIndex P (x # xs) =
     (if P x then 0 else (let i = findIndex P xs in if i < 0 then - 1 else i + 1))"

text \<open>The update of an existing fragment (lines 413 to 418).\<close>

definition updateExisting :: "buffered_call \<Rightarrow> tool_call_delta \<Rightarrow> buffered_call" where
  "updateExisting existing toolCall =
     (let e1 = (if truthy (delta_name toolCall)
                then existing\<lparr>bc_function := (bc_function existing)
                       \<lparr>bf_name := orEmpty (delta_name toolCall)\<rparr>\<rparr>
                else existing);
          e2 = (if truthy (delta_arguments toolCall)
                then e1\<lparr>bc_function := (bc_function e1)
                       \<lparr>bf_arguments := bf_arguments (bc_function e1)
                                          @ orEmpty (delta_arguments toolCall)\<rparr>\<rparr>
                else e1)
      in if truthy (tcd_id toolCall) then e2\<lparr>bc_id := tcd_id toolCall\<rparr> else e2)"

text \<open>The fragment created for an index not seen before (lines 421 to 428).\<close>

definition newToolCall :: "tool_call_delta \<Rightarrow> buffered_call" where
  "newToolCall toolCall =
     \<lparr>bc_index = tcd_index toolCall,
      bc_function = \<lparr>bf_name = orEmpty (delta_name toolCall),
                     bf_arguments = orEmpty (delta_arguments toolCall)\<rparr>,
      bc_id = tcd_id toolCall\<rparr>"

text \<open>One pass of the inner loop over \<^verbatim>\<open>delta.tool_calls\<close> (lines 408 to 431).\<close>

definition mergeToolCall :: "buffered_call list \<Rightarrow> tool_call_delta \<Rightarrow> buffered_call list" where
  "mergeToolCall buf toolCall =
     (let existingIndex = findIndex (\<lambda>tc. bc_index tc = tcd_index toolCall) buf
      in if existingIndex \<ge> 0
         then buf[nat existingIndex := updateExisting (buf ! nat existingIndex) toolCall]
         else buf @ [newToolCall toolCall])"

subsection \<open>Responses\<close>

datatype part = TextPart string | FunctionCallPart string json

record functionCall =
  fc_name :: string
  fc_args :: json
  fc_id :: "string option"

text \<open>
  \<^verbatim>\<open>candidates[0]\<close> with \<^verbatim>\<open>content.parts\<close>, \<^verbatim>\<open>content.role\<close>, \<^verbatim>\<open>index\<close> and
  \<^verbatim>\<open>finishReason\<close>; \<^verbatim>\<open>safetyRatings\<close> is always the empty array and is left out, as
  are the response fields that are always \<^verbatim>\<open>undefined\<close>.
\<close>

record candidate =
  cand_parts :: "part list"
  cand_role :: string
  cand_index :: nat
  cand_finishReason :: "string option"

record response =
  candidates :: "candidate list"
  resp_text :: string
  functionCalls :: "functionCall list option"

text \<open>
  The parser \<^verbatim>\<open>JSON.parse\<close> belongs to the platform, so the generator takes it as the
  parameter \<open>parse\<close>; \<open>None\<close> stands for the \<^verbatim>\<open>SyntaxError\<close> it throws. The
  \<^verbatim>\<open>try\<close>/\<^verbatim>\<open>catch\<close> of lines 446 to 454 turns that into the empty object.
\<close>

definition parseArgs :: "(string \<Rightarrow> json option) \<Rightarrow> string \<Rightarrow> json" where
  "parseArgs parse arguments =
     (if arguments \<noteq> []
      then (case parse arguments of Some v \<Rightarrow> v | None \<Rightarrow> JObject [])
      else JObject [])"

definition toFunctionCall :: "(string \<Rightarrow> json option) \<Rightarrow> buffered_call \<Rightarrow> functionCall" where
  "toFunctionCall parse tc =
     \<lparr>fc_name = bf_name (bc_function tc),
      fc_args = parseArgs parse (bf_arguments (bc_function tc)),
      fc_id = bc_id tc\<rparr>"

text \<open>Lines 445 to 463: \<^verbatim>\<open>undefined\<close> when the buffer is empty.\<close>

definition bufferFunctionCalls ::
  "(string \<Rightarrow> json option) \<Rightarrow> buffered_call list \<Rightarrow> functionCall list option" where
  "bufferFunctionCalls parse buf =
     (if length buf > 0 then Some (map (toFunctionCall parse) buf) else None)"

text \<open>Lines 466 to 478: the text, if any, then one part for \<^verbatim>\<open>functionCalls[0]\<close>.\<close>

definition buildParts :: "string \<Rightarrow> functionCall list option \<Rightarrow> part list" where
  "buildParts accumulatedText fcs =
     (if accumulatedText \<noteq> [] then [TextPart accumulatedText] else []) @
     (case fcs of
        None \<Rightarrow> []
      | Some [] \<Rightarrow> []
      | Some (fc # _) \<Rightarrow> [FunctionCallPart (fc_name fc) (fc_args fc)])"

text \<open>Lines 482 to 499.\<close>

definition buildResponse ::
  "string \<Rightarrow> functionCall list option \<Rightarrow> string option \<Rightarrow> response" where
  "buildResponse accumulatedText fcs finish =
     (let parts = buildParts accumulatedText fcs
      in \<lparr>candidates =
            [\<lparr>cand_parts = (if length parts > 0 then parts else [TextPart []]),
              cand_role = ''model'',
              cand_index = 0,
              cand_finishReason = finish\<rparr>],
          resp_text = accumulatedText,
          functionCalls = fcs\<rparr>)"

subsection \<open>The generator\<close>

text \<open>The three variables the generator closes over (lines 398 to 400).\<close>

record stream_state =
  toolCallsBuffer :: "buffered_call list"
  accumulatedText :: string
  hasToolCalls :: bool

definition initial :: stream_state where
  "initial = \<lparr>toolCallsBuffer = [], accumulatedText = [], hasToolCalls = False\<rparr>"

definition isDone :: "chunk \<Rightarrow> bool" where
  "isDone c = (chunk_finish_reason c = Some ''stop'' \<or> chunk_finish_reason c = Some ''tool_calls'')"

text \<open>Lines 406 to 437: the state after the chunk has been merged, before any flush.\<close>

definition absorb :: "stream_state \<Rightarrow> chunk \<Rightarrow> stream_state" where
  "absorb s c =
     (let s1 = (case chunk_tool_calls c of
                  None \<Rightarrow> s
                | Some tcs \<Rightarrow> s\<lparr>hasToolCalls := True,
                               toolCallsBuffer := foldl mergeToolCall (toolCallsBuffer s) tcs\<rparr>)
      in if truthy (chunk_content c)
         then s1\<lparr>accumulatedText := accumulatedText s1 @ orEmpty (chunk_content c)\<rparr>
         else s1)"

text \<open>
  One iteration of the \<^verbatim>\<open>for await\<close> loop: the state after it and the response it
  yields, if any (lines 440 to 513).
\<close>

definition step ::
  "(string \<Rightarrow> json option) \<Rightarrow> stream_state \<Rightarrow> chunk \<Rightarrow> stream_state \<times> response option" where
  "step parse s c =
     (let s1 = absorb s c in
      if isDone c \<or> (\<not> hasToolCalls s1 \<and> truthy (chunk_content c))
      then
        if isDone c \<or> length (accumulatedText s1) \<ge> 10
        then
          (if isDone c
           then \<lparr>toolCallsBuffer = [], accumulatedText = [], hasToolCalls = False\<rparr>
           else s1\<lparr>accumulatedText := []\<rparr>,
           Some (buildResponse (accumulatedText s1)
                   (bufferFunctionCalls parse (toolCallsBuffer s1))
                   (chunk_finish_reason c)))
        else (s1, None)
      else (s1, None))"

text \<open>
  The generator over the chunks the provider delivers, from a given state: the list of
  the responses it yields, in order. On chunks of the declared shape the loop body throws
  nothing but the parser's error, which is caught; an error of the stream itself ends
  the generator with that error (line 515) and is not part of the model.
\<close>

fun gen_from :: "(string \<Rightarrow> json option) \<Rightarrow> stream_state \<Rightarrow> chunk list \<Rightarrow> response list" where
  "gen_from parse s [] = []"
| "gen_from parse s (c # cs) =
     (case step parse s c of
        (s', None) \<Rightarrow> gen_from parse s' cs
      | (s', Some r) \<Rightarrow> r # gen_from parse s' cs)"

definition gen :: "(string \<Rightarrow> json option) \<Rightarrow> chunk list \<Rightarrow> response list" where
  "gen parse cs = gen_from parse initial cs"

text \<open>The state the generator is in after a list of chunks.\<close>

fun state_after :: "(string \<Rightarrow> json option) \<Rightarrow> stream_state \<Rightarrow> chunk list \<Rightarrow> stream_state" where
  "state_after parse s [] = s"
| "state_after parse s (c # cs) = state_after parse (fst (step parse s c)) cs"

subsection \<open>The response of \<^verbatim>\<open>generateContent\<close>\<close>

text \<open>
  The reply of a call without streaming, with the fields lines 303 to 338 read:
  \<^verbatim>\<open>completion.choices[0].message.content\<close>, \<^verbatim>\<open>.message.tool_calls\<close> and
  \<^verbatim>\<open>.finish_reason\<close>. Reading \<^verbatim>\<open>choices[0].message\<close> of a reply without choices
  throws a \<^verbatim>\<open>TypeError\<close>, which the \<^verbatim>\<open>catch\<close> of line 341 logs and throws again.
\<close>

record completion_tool_call =
  ctc_id :: "string option"
  ctc_function :: "function_delta option"

record completion_message =
  cm_content :: "string option"
  cm_tool_calls :: "completion_tool_call list option"

record completion_choice =
  cc_message :: completion_message
  cc_finish_reason :: "string option"

record completion =
  cmp_choices :: "completion_choice list"

datatype call_error = TypeError

definition completionFunctionCall ::
  "(string \<Rightarrow> json option) \<Rightarrow> completion_tool_call \<Rightarrow> functionCall" where
  "completionFunctionCall parse tc =
     \<lparr>fc_name = orEmpty (case ctc_function tc of None \<Rightarrow> None | Some f \<Rightarrow> fd_name f),
      fc_args = parseArgs parse
                  (orEmpty (case ctc_function tc of None \<Rightarrow> None | Some f \<Rightarrow> fd_arguments f)),
      fc_id = ctc_id tc\<rparr>"

definition generateContent_response ::
  "(string \<Rightarrow> json option) \<Rightarrow> completion \<Rightarrow> call_error + response" where
  "generateContent_response parse c =
     (case cmp_choices c of
        [] \<Rightarrow> Inl TypeError
      | ch # _ \<Rightarrow>
          Inr \<lparr>candidates =
                 [\<lparr>cand_parts = [TextPart (orEmpty (cm_content (cc_message ch)))],
                   cand_role = ''model'',
                   cand_index = 0,
                   cand_finishReason = cc_finish_reason ch\<rparr>],
               resp_text = orEmpty (cm_content (cc_message ch)),
               functionCalls =
                 map_option (map (completionFunctionCall parse))
                   (cm_tool_calls (cc_message ch))\<rparr>)"

section \<open>A reference model of \<^verbatim>\<open>JSON.parse\<close>\<close>

text \<open>
  The generator is stated for any parser. To run it on concrete streams, this section
  gives a parser for the part of JSON without string escapes, fractions and exponents:
  a tokenizer followed by a recursive-descent parser. On that part \<open>None\<close> is the
  \<^verbatim>\<open>SyntaxError\<close> of the platform; a text with an escape, a fraction or an exponent is
  outside the model and also gives \<open>None\<close>. An object keeps its keys in the order of
  their first occurrence, a repeated key keeping its last value. The parser's first
  argument bounds the number of nested calls; \<open>JSON_parse\<close> starts it with one more
  than the number of tokens, which is shown below to be enough.
\<close>

datatype token =
    TLBrace | TRBrace | TLBrack | TRBrack | TColon | TComma
  | TString string | TNumber int | TTrue | TFalse | TNull

definition isWhitespace :: "char \<Rightarrow> bool" where
  "isWhitespace c = (c = CHR '' '' \<or> c = CHR 0x09 \<or> c = CHR 0x0A \<or> c = CHR 0x0D)"

definition isDigit :: "char \<Rightarrow> bool" where
  "isDigit c = (48 \<le> (of_char c :: nat) \<and> (of_char c :: nat) \<le> 57)"

definition digitVal :: "char \<Rightarrow> nat" where
  "digitVal c = of_char c - 48"

definition decimal :: "string \<Rightarrow> nat" where
  "decimal ds = foldl (\<lambda>n d. 10 * n + digitVal d) 0 ds"

definition plainChar :: "char \<Rightarrow> bool" where
  "plainChar c = (c \<noteq> CHR 0x22 \<and> c \<noteq> CHR 0x5C \<and> 32 \<le> (of_char c :: nat))"

definition wellFormedDigits :: "string \<Rightarrow> bool" where
  "wellFormedDigits ds =
     (case ds of [] \<Rightarrow> False | d # r \<Rightarrow> (if d = CHR ''0'' then r = [] else True))"

function lex :: "string \<Rightarrow> token list option" where
  "lex [] = Some []"
| "lex (c # cs) =
     (if isWhitespace c then lex cs
      else if c = CHR ''{'' then map_option ((#) TLBrace) (lex cs)
      else if c = CHR ''}'' then map_option ((#) TRBrace) (lex cs)
      else if c = CHR ''['' then map_option ((#) TLBrack) (lex cs)
      else if c = CHR '']'' then map_option ((#) TRBrack) (lex cs)
      else if c = CHR '':'' then map_option ((#) TColon) (lex cs)
      else if c = CHR '','' then map_option ((#) TComma) (lex cs)
      else if c = CHR 0x22 then
        (case dropWhile plainChar cs of
           [] \<Rightarrow> None
         | q # rest \<Rightarrow>
             if q = CHR 0x22
             then map_option ((#) (TString (takeWhile plainChar cs))) (lex rest)
             else None)
      else if c = CHR ''-'' then
        (if wellFormedDigits (takeWhile isDigit cs)
         then map_option ((#) (TNumber (- int (decimal (takeWhile isDigit cs)))))
                (lex (dropWhile isDigit cs))
         else None)
      else if isDigit c then
        (if wellFormedDigits (takeWhile isDigit (c # cs))
         then map_option ((#) (TNumber (int (decimal (takeWhile isDigit (c # cs))))))
                (lex (dropWhile isDigit cs))
         else None)
      else if take 4 (c # cs) = ''true'' then map_option ((#) TTrue) (lex (drop 3 cs))
      else if take 5 (c # cs) = ''false'' then map_option ((#) TFalse) (lex (drop 4 cs))
      else if take 4 (c # cs) = ''null'' then map_option ((#) TNull) (lex (drop 3 cs))
      else None)"
  by pat_completeness auto
termination
proof (relation "measure length")
  fix c cs q rest
  assume "dropWhile plainChar cs = q # rest"
  then have "length (q # rest) \<le> length cs"
    by (metis length_dropWhile_le)
  then show "(rest, c # cs) \<in> measure length" by simp
qed (auto simp: length_dropWhile_le le_imp_less_Suc)

fun setMember :: "string \<Rightarrow> json \<Rightarrow> (string \<times> json) list \<Rightarrow> (string \<times> json) list" where
  "setMember k v [] = [(k, v)]"
| "setMember k v (p # ps) = (if fst p = k then (k, v) # ps else p # setMember k v ps)"

fun parse_value :: "nat \<Rightarrow> token list \<Rightarrow> (json \<times> token list) option"
  and parse_elements :: "nat \<Rightarrow> json list \<Rightarrow> token list \<Rightarrow> (json list \<times> token list) option"
  and parse_members ::
    "nat \<Rightarrow> (string \<times> json) list \<Rightarrow> token list \<Rightarrow> ((string \<times> json) list \<times> token list) option"
where
  "parse_value 0 ts = None"
| "parse_value (Suc n) ts =
     (case ts of
        [] \<Rightarrow> None
      | t # r \<Rightarrow>
          (case t of
             TString s \<Rightarrow> Some (JString s, r)
           | TNumber i \<Rightarrow> Some (JNumber i, r)
           | TTrue \<Rightarrow> Some (JBool True, r)
           | TFalse \<Rightarrow> Some (JBool False, r)
           | TNull \<Rightarrow> Some (JNull, r)
           | TLBrack \<Rightarrow>
               (case r of
                  TRBrack # r' \<Rightarrow> Some (JArray [], r')
                | _ \<Rightarrow> map_option (\<lambda>(vs, r'). (JArray vs, r')) (parse_elements n [] r))
           | TLBrace \<Rightarrow>
               (case r of
                  TRBrace # r' \<Rightarrow> Some (JObject [], r')
                | _ \<Rightarrow> map_option (\<lambda>(ms, r'). (JObject ms, r')) (parse_members n [] r))
           | _ \<Rightarrow> None))"
| "parse_elements 0 acc ts = None"
| "parse_elements (Suc n) acc ts =
     (case parse_value n ts of
        None \<Rightarrow> None
      | Some (v, r) \<Rightarrow>
          (case r of
             TComma # r' \<Rightarrow> parse_elements n (acc @ [v]) r'
           | TRBrack # r' \<Rightarrow> Some (acc @ [v], r')
           | _ \<Rightarrow> None))"
| "parse_members 0 acc ts = None"
| "parse_members (Suc n) acc ts =
     (case ts of
        TString k # TColon # r \<Rightarrow>
          (case parse_value n r of
             None \<Rightarrow> None
           | Some (v, r') \<Rightarrow>
               (case r' of
                  TComma # r'' \<Rightarrow> parse_members n (setMember k v acc) r''
                | TRBrace # r'' \<Rightarrow> Some (setMember k v acc, r'')
                | _ \<Rightarrow> None))
      | _ \<Rightarrow> None)"

definition JSON_parse :: "string \<Rightarrow> json option" where
  "JSON_parse s =
     (case lex s of
        None \<Rightarrow> None
      | Some ts \<Rightarrow>
          (case parse_value (Suc (length ts)) ts of
             Some (v, []) \<Rightarrow> Some v
           | _ \<Rightarrow> None))"

text \<open>
  Chunks of the two shapes the properties below speak about: a chunk that carries one
  tool-call delta (and maybe text), and the chunk that carries a finish reason.
\<close>

definition toolCallDelta ::
  "int \<Rightarrow> string option \<Rightarrow> string option \<Rightarrow> string \<Rightarrow> tool_call_delta" where
  "toolCallDelta i ident nm args =
     \<lparr>tcd_index = i, tcd_id = ident,
      tcd_function = Some \<lparr>fd_name = nm, fd_arguments = Some args\<rparr>\<rparr>"

definition toolCallsChunk ::
  "tool_call_delta list \<Rightarrow> string option \<Rightarrow> string option \<Rightarrow> chunk" where
  "toolCallsChunk tcs txt finish =
     \<lparr>choices = [\<lparr>ch_delta = Some \<lparr>d_tool_calls = Some tcs, d_content = txt\<rparr>,
                   ch_finish_reason = finish\<rparr>]\<rparr>"

definition argumentsChunk ::
  "int \<Rightarrow> string option \<Rightarrow> string option \<Rightarrow> string \<Rightarrow> string option \<Rightarrow> chunk" where
  "argumentsChunk i ident nm args txt = toolCallsChunk [toolCallDelta i ident nm args] txt None"

definition textChunk :: "string \<Rightarrow> chunk" where
  "textChunk txt =
     \<lparr>choices = [\<lparr>ch_delta = Some \<lparr>d_tool_calls = None, d_content = Some txt\<rparr>,
                   ch_finish_reason = None\<rparr>]\<rparr>"

definition finishChunk :: "string \<Rightarrow> string option \<Rightarrow> chunk" where
  "finishChunk reason txt =
     \<lparr>choices = [\<lparr>ch_delta = Some \<lparr>d_tool_calls = None, d_content = txt\<rparr>,
                   ch_finish_reason = Some reason\<rparr>]\<rparr>"

text \<open>
  The tool-call deltas of a list of chunks in arrival order, and their merge by index
  into a buffer: what the fragment set holds when nothing has cleared it.
\<close>

definition chunkDeltas :: "chunk \<Rightarrow> tool_call_delta list" where
  "chunkDeltas c = (case chunk_tool_calls c of None \<Rightarrow> [] | Some tcs \<Rightarrow> tcs)"

definition mergeChunks :: "buffered_call list \<Rightarrow> chunk list \<Rightarrow> buffered_call list" where
  "mergeChunks buf cs = foldl mergeToolCall buf (concat (map chunkDeltas cs))"

text \<open>
  The argument text delivered for index \<open>i\<close> by a list of deltas: the pieces of the
  deltas with that index, concatenated in arrival order.
\<close>

definition argumentPieces :: "int \<Rightarrow> tool_call_delta list \<Rightarrow> string" where
  "argumentPieces i ds =
     concat (map (\<lambda>d. orEmpty (delta_arguments d)) (filter (\<lambda>d. tcd_index d = i) ds))"

section \<open>The request translator: \<^verbatim>\<open>toMessages\<close> of openaiAdapter.ts\<close>

text \<open>
  An entry of \<^verbatim>\<open>request.contents\<close> and its parts, with the optional fields the
  translator reads. A function call is the JSON object \<^verbatim>\<open>{name, args}\<close>; a function
  response carries its \<^verbatim>\<open>id\<close> and its payload \<^verbatim>\<open>response\<close>.
\<close>

record functionResponse =
  fr_id :: "string option"
  fr_response :: "json option"

record in_part =
  p_text :: "string option"
  p_functionCall :: "json option"
  p_functionResponse :: "functionResponse option"

record content =
  c_role :: "string option"
  c_parts :: "in_part list option"

record message =
  m_role :: "string option"
  m_tool_call_id :: "string option"
  m_content :: "string option"

text \<open>
  \<^verbatim>\<open>String(v)\<close> and \<^verbatim>\<open>JSON.stringify(v)\<close> belong to the platform and are the
  parameters \<open>toStr\<close> and \<open>stringify\<close>. Lines 112 to 126: the content of a tool
  message. \<^verbatim>\<open>JSON.stringify(undefined)\<close> is \<^verbatim>\<open>undefined\<close>, hence the \<open>option\<close>.
\<close>

definition responseContent ::
  "(json \<Rightarrow> string) \<Rightarrow> (json \<Rightarrow> string) \<Rightarrow> json option \<Rightarrow> string option" where
  "responseContent toStr stringify resp =
     (case resp of
        None \<Rightarrow> None
      | Some (JString s) \<Rightarrow> Some s
      | Some (JObject kvs) \<Rightarrow>
          (case map_of kvs ''output'' of
             Some v \<Rightarrow> Some (toStr v)
           | None \<Rightarrow>
               (case map_of kvs ''content'' of
                  Some v \<Rightarrow> Some (toStr v)
                | None \<Rightarrow> Some (stringify (JObject kvs))))
      | Some v \<Rightarrow> Some (stringify v))"

text \<open>\<^verbatim>\<open>c.parts.find(p => p.functionResponse)\<close> and \<^verbatim>\<open>c.parts.find(p => p.functionCall)\<close>.\<close>

definition findFunctionResponse :: "in_part list \<Rightarrow> functionResponse option" where
  "findFunctionResponse parts =
     (case find (\<lambda>p. p_functionResponse p \<noteq> None) parts of
        None \<Rightarrow> None
      | Some p \<Rightarrow> p_functionResponse p)"

definition findFunctionCall :: "in_part list \<Rightarrow> json option" where
  "findFunctionCall parts =
     (case find (\<lambda>p. p_functionCall p \<noteq> None) parts of
        None \<Rightarrow> None
      | Some p \<Rightarrow> p_functionCall p)"

text \<open>The callback of \<^verbatim>\<open>contents.map\<close> (lines 98 to 146).\<close>

definition toMessage :: "(json \<Rightarrow> string) \<Rightarrow> (json \<Rightarrow> string) \<Rightarrow> content \<Rightarrow> message" where
  "toMessage toStr stringify c =
     (let role = (if c_role c = Some ''model'' then Some ''assistant'' else c_role c) in
      case c_parts c of
        None \<Rightarrow> \<lparr>m_role = role, m_tool_call_id = None, m_content = Some []\<rparr>
      | Some parts \<Rightarrow>
          (case findFunctionResponse parts of
             Some fr \<Rightarrow>
               \<lparr>m_role = Some ''tool'',
                m_tool_call_id = fr_id fr,
                m_content = responseContent toStr stringify (fr_response fr)\<rparr>
           | None \<Rightarrow>
               (case findFunctionCall parts of
                  Some fc \<Rightarrow>
                    \<lparr>m_role = role, m_tool_call_id = None, m_content = Some (stringify fc)\<rparr>
                | None \<Rightarrow>
                    \<lparr>m_role = role, m_tool_call_id = None,
                     m_content = Some (concat (map (\<lambda>p. orEmpty (p_text p)) parts))\<rparr>)))"

text \<open>Lines 94 to 151; \<open>None\<close> is a \<^verbatim>\<open>contents\<close> that is not an array.\<close>

definition toMessages ::
  "(json \<Rightarrow> string) \<Rightarrow> (json \<Rightarrow> string) \<Rightarrow> content list option \<Rightarrow> message list" where
  "toMessages toStr stringify contents =
     (case contents of None \<Rightarrow> [] | Some cs \<Rightarrow> map (toMessage toStr stringify) cs)"

subsection \<open>Reference models of \<^verbatim>\<open>String\<close> and \<^verbatim>\<open>JSON.stringify\<close>\<close>

text \<open>
  For running the translator on concrete messages: the two platform functions on the
  JSON values of this theory.
\<close>

function showNat :: "nat \<Rightarrow> string" where
  "showNat n =
     (if n < 10 then [char_of (48 + n)] else showNat (n div 10) @ [char_of (48 + n mod 10)])"
  by pat_completeness auto
termination
  by (relation "measure id") auto

definition showInt :: "int \<Rightarrow> string" where
  "showInt i = (if i < 0 then CHR ''-'' # showNat (nat (- i)) else showNat (nat i))"

fun intercalate :: "string \<Rightarrow> string list \<Rightarrow> string" where
  "intercalate sep [] = []"
| "intercalate sep [x] = x"
| "intercalate sep (x # y # ys) = x @ sep @ intercalate sep (y # ys)"

fun String_js :: "json \<Rightarrow> string" where
  "String_js JNull = ''null''"
| "String_js (JBool b) = (if b then ''true'' else ''false'')"
| "String_js (JNumber i) = showInt i"
| "String_js (JString s) = s"
| "String_js (JArray vs) =
     intercalate '','' (map (\<lambda>v. if v = JNull then [] else String_js v) vs)"
| "String_js (JObject kvs) = ''[object Object]''"

definition hexDigit :: "nat \<Rightarrow> char" where
  "hexDigit n = (if n < 10 then char_of (48 + n) else char_of (87 + n))"

definition escapeChar :: "char \<Rightarrow> string" where
  "escapeChar c =
     (if c = CHR 0x22 then [CHR 0x5C, CHR 0x22]
      else if c = CHR 0x5C then [CHR 0x5C, CHR 0x5C]
      else if c = CHR 0x08 then [CHR 0x5C, CHR ''b'']
      else if c = CHR 0x09 then [CHR 0x5C, CHR ''t'']
      else if c = CHR 0x0A then [CHR 0x5C, CHR ''n'']
      else if c = CHR 0x0C then [CHR 0x5C, CHR ''f'']
      else if c = CHR 0x0D then [CHR 0x5C, CHR ''r'']
      else if (of_char c :: nat) < 32
        then [CHR 0x5C, CHR ''u'', CHR ''0'', CHR ''0'',
              hexDigit (of_char c div 16), hexDigit (of_char c mod 16)]
      else [c])"

definition quote :: "string \<Rightarrow> string" where
  "quote s = CHR 0x22 # concat (map escapeChar s) @ [CHR 0x22]"

fun JSON_stringify :: "json \<Rightarrow> string" where
  "JSON_stringify JNull = ''null''"
| "JSON_stringify (JBool b) = (if b then ''true'' else ''false'')"
| "JSON_stringify (JNumber i) = showInt i"
| "JSON_stringify (JString s) = quote s"
| "JSON_stringify (JArray vs) = ''['' @ intercalate '','' (map JSON_stringify vs) @ '']''"
| "JSON_stringify (JObject kvs) =
     ''{'' @ intercalate '','' (map (\<lambda>(k, v). quote k @ '':'' @ JSON_stringify v) kvs) @ ''}''"

section \<open>Auth resolution: \<^verbatim>\<open>validateNonInteractiveAuth\<close>\<close>

text \<open>
  The repository holds two functions of this name. One returns its configuration as it
  is and resolves nothing; the other is the resolver, modelled here.
  \<^verbatim>\<open>process.env\<close> is a map from names to strings. The auth types are the members of
  the enum \<^verbatim>\<open>AuthType\<close>.
\<close>

datatype AuthType = LOGIN_WITH_GOOGLE | USE_GEMINI | USE_VERTEX_AI | CLOUD_SHELL | USE_OPENAI

type_synonym env = "string \<Rightarrow> string option"

definition getAuthTypeFromEnv :: "env \<Rightarrow> AuthType option" where
  "getAuthTypeFromEnv env =
     (if env ''GOOGLE_GENAI_USE_GCA'' = Some ''true'' then Some LOGIN_WITH_GOOGLE
      else if env ''GOOGLE_GENAI_USE_VERTEXAI'' = Some ''true'' then Some USE_VERTEX_AI
      else if truthy (env ''GEMINI_API_KEY'') then Some USE_GEMINI
      else if truthy (env ''OPENAI_API_KEY'') then Some USE_OPENAI
      else None)"

text \<open>
  Lines 33 to 47: the auth type the function settles on, from the configured auth type,
  the provider of the configuration and the environment.
\<close>

definition effectiveAuthType :: "AuthType option \<Rightarrow> string option \<Rightarrow> env \<Rightarrow> AuthType option" where
  "effectiveAuthType configuredAuthType provider env =
     (if truthy provider \<and> provider \<noteq> Some ''gemini''
      then
        if provider = Some ''openai'' then Some USE_OPENAI
        else if provider = Some ''deepseek'' \<or> provider = Some ''ollama'' then Some USE_OPENAI
        else configuredAuthType
      else
        (case configuredAuthType of
           Some a \<Rightarrow> Some a
         | None \<Rightarrow> getAuthTypeFromEnv env))"

text \<open>
  Lines 49 to 64. Both failures print a message and call \<^verbatim>\<open>process.exit(1)\<close>; a result
  \<open>Inr a\<close> is the call \<^verbatim>\<open>refreshAuth(a)\<close>. The check \<^verbatim>\<open>validateAuthMethod\<close> is imported
  from a file outside the sources and is a parameter (\<open>None\<close> for \<^verbatim>\<open>null\<close>).
\<close>

datatype auth_failure = UnresolvedAuth | InvalidAuthMethod string

definition validateNonInteractiveAuth ::
  "(AuthType \<Rightarrow> string option) \<Rightarrow> AuthType option \<Rightarrow> bool option \<Rightarrow> string option \<Rightarrow> env
     \<Rightarrow> auth_failure + AuthType" where
  "validateNonInteractiveAuth validateAuthMethod configuredAuthType useExternalAuth provider env =
     (case effectiveAuthType configuredAuthType provider env of
        None \<Rightarrow> Inl UnresolvedAuth
      | Some a \<Rightarrow>
          if useExternalAuth = Some True then Inr a
          else (case validateAuthMethod a of
                  Some err \<Rightarrow> Inl (InvalidAuthMethod err)
                | None \<Rightarrow> Inr a))"

section \<open>The generator factory: \<^verbatim>\<open>createContentGenerator\<close>\<close>

text \<open>
  The repository holds two versions of the factory: \<open>createContentGenerator\<close>
  dispatches on the provider and then on the auth type, \<open>createContentGenerator_byProvider\<close>
  on the provider alone. Their branches for \<open>openai\<close>, \<open>deepseek\<close> and \<open>ollama\<close>
  are the same.
  The fields of \<^verbatim>\<open>ContentGeneratorConfig\<close> the factory reads. A generator is one of
  the three the factory builds, with the arguments it passes: the constructor
  \<^verbatim>\<open>OpenAIContentGenerator(apiKey, model, gcConfig, provider, baseURL)\<close>, the vendor
  client \<^verbatim>\<open>GoogleGenAI({apiKey, vertexai})\<close>, or the code-assist generator.
\<close>

record ContentGeneratorConfig =
  cg_model :: string
  cg_apiKey :: "string option"
  cg_vertexai :: "bool option"
  cg_authType :: "AuthType option"
  cg_provider :: "string option"
  cg_baseURL :: "string option"

datatype ContentGenerator =
    OpenAIContentGenerator string string "string option" "string option"
  | GoogleGenAIModels "string option" "bool option"
  | CodeAssistContentGenerator AuthType

datatype factory_error =
    ApiKeyRequired string
  | Unsupported "AuthType option" string
  | UnsupportedProvider string

text \<open>\<^verbatim>\<open>x || d\<close> for an optional string \<open>x\<close> and a string \<open>d\<close>.\<close>

definition orElse :: "string option \<Rightarrow> string \<Rightarrow> string" where
  "orElse x d = (case x of None \<Rightarrow> d | Some s \<Rightarrow> (if s = [] then d else s))"

definition createContentGenerator ::
  "ContentGeneratorConfig \<Rightarrow> env \<Rightarrow> factory_error + ContentGenerator" where
  "createContentGenerator config env =
     (let provider = orElse (cg_provider config) (orElse (env ''GEMINI_PROVIDER'') ''gemini'') in
      if provider = ''openai'' then
        if \<not> truthy (cg_apiKey config) then Inl (ApiKeyRequired ''OpenAI API key is required'')
        else Inr (OpenAIContentGenerator
                    (orEmpty (cg_apiKey config))
                    (orElse (Some (cg_model config)) (orElse (env ''OPENAI_API_MODEL'') ''gpt-3.5-turbo''))
                    (Some ''openai'')
                    (Some (orElse (cg_baseURL config)
                             (orElse (env ''OPENAI_BASE_URL'') ''https://api.openai.com/v1''))))
      else if provider = ''deepseek'' then
        if \<not> truthy (cg_apiKey config) then Inl (ApiKeyRequired ''DeepSeek API key is required'')
        else Inr (OpenAIContentGenerator
                    (orEmpty (cg_apiKey config))
                    (orElse (Some (cg_model config)) (orElse (env ''DEEPSEEK_API_MODEL'') ''deepseek-chat''))
                    (Some ''deepseek'')
                    (Some (orElse (cg_baseURL config)
                             (orElse (env ''DEEPSEEK_API_BASE'') ''https://api.deepseek.com/v1''))))
      else if provider = ''ollama'' then
        (let ollamaBaseURL =
               orElse (cg_baseURL config)
                 (orElse (env ''OLLAMA_BASE_URL'') ''http://localhost:11434'') @ ''/v1''
         in Inr (OpenAIContentGenerator
                   []
                   (orElse (Some (cg_model config)) (orElse (env ''OLLAMA_MODEL'') ''llama2''))
                   (Some ''ollama'')
                   (Some ollamaBaseURL)))
      else if cg_authType config = Some LOGIN_WITH_GOOGLE then
        Inr (CodeAssistContentGenerator LOGIN_WITH_GOOGLE)
      else if cg_authType config = Some CLOUD_SHELL then
        Inr (CodeAssistContentGenerator CLOUD_SHELL)
      else if cg_authType config = Some USE_GEMINI \<or> cg_authType config = Some USE_VERTEX_AI then
        Inr (GoogleGenAIModels
               (if cg_apiKey config = Some [] then None else cg_apiKey config)
               (cg_vertexai config))
      else if cg_authType config = Some USE_OPENAI then
        if \<not> truthy (cg_apiKey config) then Inl (ApiKeyRequired ''OpenAI API key is required'')
        else Inr (OpenAIContentGenerator
                    (orEmpty (cg_apiKey config))
                    (cg_model config)
                    (cg_provider config)
                    (cg_baseURL config))
      else Inl (Unsupported (cg_authType config) provider))"

text \<open>The version that dispatches on the provider alone.\<close>

definition createContentGenerator_byProvider ::
  "ContentGeneratorConfig \<Rightarrow> env \<Rightarrow> factory_error + ContentGenerator" where
  "createContentGenerator_byProvider config env =
     (let provider = orElse (cg_provider config) (orElse (env ''GEMINI_PROVIDER'') ''gemini'') in
      if provider = ''openai'' then
        if \<not> truthy (cg_apiKey config) then Inl (ApiKeyRequired ''OpenAI API key is required'')
        else Inr (OpenAIContentGenerator
                    (orEmpty (cg_apiKey config))
                    (orElse (Some (cg_model config)) (orElse (env ''OPENAI_API_MODEL'') ''gpt-3.5-turbo''))
                    (Some ''openai'')
                    (Some (orElse (cg_baseURL config)
                             (orElse (env ''OPENAI_BASE_URL'') ''https://api.openai.com/v1''))))
      else if provider = ''deepseek'' then
        if \<not> truthy (cg_apiKey config) then Inl (ApiKeyRequired ''DeepSeek API key is required'')
        else Inr (OpenAIContentGenerator
                    (orEmpty (cg_apiKey config))
                    (orElse (Some (cg_model config)) (orElse (env ''DEEPSEEK_API_MODEL'') ''deepseek-chat''))
                    (Some ''deepseek'')
                    (Some (orElse (cg_baseURL config)
                             (orElse (env ''DEEPSEEK_API_BASE'') ''https://api.deepseek.com/v1''))))
      else if provider = ''ollama'' then
        (let ollamaBaseURL =
               orElse (cg_baseURL config)
                 (orElse (env ''OLLAMA_BASE_URL'') ''http://localhost:11434'') @ ''/v1''
         in Inr (OpenAIContentGenerator
                   []
                   (orElse (Some (cg_model config)) (orElse (env ''OLLAMA_MODEL'') ''llama2''))
                   (Some ''ollama'')
                   (Some ollamaBaseURL)))
      else if provider = ''gemini'' then
        if truthy (cg_apiKey config)
        then Inr (GoogleGenAIModels (cg_apiKey config) (Some False))
        else Inr (CodeAssistContentGenerator USE_GEMINI)
      else Inl (UnsupportedProvider provider))"

section \<open>The adapter's client: \<^verbatim>\<open>getOpenAI\<close> of openaiAdapter.ts\<close>

text \<open>
  The fields of \<^verbatim>\<open>OpenAIAdapterConfig\<close> that \<^verbatim>\<open>getOpenAI\<close> and \<^verbatim>\<open>shouldSkipTools\<close>
  read, and the options object handed to the client library (lines 52 to 87).
\<close>

datatype provider = Openai | Deepseek | Ollama | Local

record OpenAIAdapterConfig =
  ac_provider :: provider
  ac_model :: string
  ac_baseUrl :: string
  ac_apiKey :: "string option"
  ac_apiVersion :: "string option"

record openaiConfig =
  oc_apiKey :: string
  oc_baseURL :: string
  oc_defaultHeaders :: "(string \<times> string option) list option"

definition endsWith :: "string \<Rightarrow> string \<Rightarrow> bool" where
  "endsWith s suffix =
     (length suffix \<le> length s \<and> drop (length s - length suffix) s = suffix)"

definition stripTrailingSlashes :: "string \<Rightarrow> string" where
  "stripTrailingSlashes s = rev (dropWhile (\<lambda>c. c = CHR ''/'') (rev s))"

definition getOpenAI :: "OpenAIAdapterConfig \<Rightarrow> openaiConfig" where
  "getOpenAI config =
     (let openaiConfig =
            \<lparr>oc_apiKey = orElse (ac_apiKey config) ''dummy-key'',
             oc_baseURL = ac_baseUrl config,
             oc_defaultHeaders = None\<rparr>
      in case ac_provider config of
           Openai \<Rightarrow>
             (if truthy (ac_apiVersion config)
              then openaiConfig\<lparr>oc_defaultHeaders :=
                     Some [(''OpenAI-Version'', ac_apiVersion config)]\<rparr>
              else openaiConfig)
         | Deepseek \<Rightarrow>
             openaiConfig\<lparr>oc_defaultHeaders := Some [(''X-API-KEY'', ac_apiKey config)]\<rparr>
         | Ollama \<Rightarrow>
             (if \<not> endsWith (ac_baseUrl config) ''/v1''
              then openaiConfig\<lparr>oc_baseURL := stripTrailingSlashes (ac_baseUrl config) @ ''/v1''\<rparr>
              else openaiConfig)
         | Local \<Rightarrow>
             (let c1 = (if \<not> endsWith (ac_baseUrl config) ''/v1''
                        then openaiConfig\<lparr>oc_baseURL :=
                               stripTrailingSlashes (ac_baseUrl config) @ ''/v1''\<rparr>
                        else openaiConfig)
              in if \<not> truthy (ac_apiKey config) then c1\<lparr>oc_apiKey := ''dummy-key''\<rparr> else c1))"

fun includes_js :: "string \<Rightarrow> string \<Rightarrow> bool" where
  "includes_js [] sub = (sub = [])"
| "includes_js (c # cs) sub = (take (length sub) (c # cs) = sub \<or> includes_js cs sub)"

definition shouldSkipTools :: "OpenAIAdapterConfig \<Rightarrow> bool" where
  "shouldSkipTools config =
     (case ac_provider config of
        Ollama \<Rightarrow> False
      | Local \<Rightarrow> (if includes_js (ac_model config) ''deepseek-chat'' then False else False)
      | Deepseek \<Rightarrow> False
      | Openai \<Rightarrow> False)"

section \<open>The provider request of \<^verbatim>\<open>generateContent\<close> and \<^verbatim>\<open>generateContentStream\<close>\<close>

text \<open>
  \<^verbatim>\<open>requestConfig\<close> is an object built key by key, so it is a map from key names to
  values. \<^verbatim>\<open>request.config\<close> is read as a \<^verbatim>\<open>Record<string, unknown>\<close> that may be
  \<^verbatim>\<open>undefined\<close>: an optional map from names to JSON values. The translation of the
  tool declarations (\<^verbatim>\<open>convertToOpenAITools\<close>, lines 153 to 264) takes no part in the
  properties below and enters as a parameter.
\<close>

datatype rc_value =
    RString string
  | RBool bool
  | RJson json
  | RMessages "message list"
  | RTools "json list"

type_synonym requestConfig = "string \<Rightarrow> rc_value option"

fun jsTruthy :: "json \<Rightarrow> bool" where
  "jsTruthy JNull = False"
| "jsTruthy (JBool b) = b"
| "jsTruthy (JNumber n) = (n \<noteq> 0)"
| "jsTruthy (JString s) = (s \<noteq> [])"
| "jsTruthy (JArray vs) = True"
| "jsTruthy (JObject kvs) = True"

definition configField :: "(string \<Rightarrow> json option) option \<Rightarrow> string \<Rightarrow> json option" where
  "configField config k = (case config of None \<Rightarrow> None | Some c \<Rightarrow> c k)"

definition addOptional ::
  "(string \<Rightarrow> json option) option \<Rightarrow> requestConfig \<Rightarrow> requestConfig" where
  "addOptional config rc =
     (let rc1 = (case configField config ''temperature'' of
                   Some v \<Rightarrow> rc(''temperature'' \<mapsto> RJson v) | None \<Rightarrow> rc);
          rc2 = (case configField config ''maxOutputTokens'' of
                   Some v \<Rightarrow> rc1(''max_tokens'' \<mapsto> RJson v) | None \<Rightarrow> rc1)
      in case configField config ''top_p'' of
           Some v \<Rightarrow> rc2(''top_p'' \<mapsto> RJson v) | None \<Rightarrow> rc2)"

definition addTools ::
  "(json \<Rightarrow> json list) \<Rightarrow> OpenAIAdapterConfig \<Rightarrow> (string \<Rightarrow> json option) option
     \<Rightarrow> requestConfig \<Rightarrow> requestConfig" where
  "addTools convertToOpenAITools adapter config rc =
     (case configField config ''tools'' of
        None \<Rightarrow> rc
      | Some geminiTools \<Rightarrow>
          if jsTruthy geminiTools \<and> \<not> shouldSkipTools adapter
          then (let openaiTools = convertToOpenAITools geminiTools
                in if length openaiTools > 0
                   then rc(''tools'' \<mapsto> RTools openaiTools, ''tool_choice'' \<mapsto> RString ''auto'')
                   else rc)
          else rc)"

definition generateContent_requestConfig ::
  "(json \<Rightarrow> json list) \<Rightarrow> OpenAIAdapterConfig \<Rightarrow> message list
     \<Rightarrow> (string \<Rightarrow> json option) option \<Rightarrow> requestConfig" where
  "generateContent_requestConfig convertToOpenAITools adapter messages config =
     addTools convertToOpenAITools adapter config
       (addOptional config
          [''model'' \<mapsto> RString (ac_model adapter), ''messages'' \<mapsto> RMessages messages])"

definition generateContentStream_requestConfig ::
  "(json \<Rightarrow> json list) \<Rightarrow> OpenAIAdapterConfig \<Rightarrow> message list
     \<Rightarrow> (string \<Rightarrow> json option) option \<Rightarrow> requestConfig" where
  "generateContentStream_requestConfig convertToOpenAITools adapter messages config =
     addTools convertToOpenAITools adapter config
       (addOptional config
          [''model'' \<mapsto> RString (ac_model adapter), ''messages'' \<mapsto> RMessages messages,
           ''stream'' \<mapsto> RBool True])"

text \<open>
  The specification's reading of the forwarding, to compare the code with: the sampling
  parameters are the tuning knobs of \<^verbatim>\<open>ContentGeneratorConfig.samplingParams\<close>, the
  token limit under the name \<^verbatim>\<open>maxOutputTokens\<close> it has in a request, and each is
  forwarded under its own name but \<^verbatim>\<open>maxOutputTokens\<close>, which becomes \<^verbatim>\<open>max_tokens\<close>.
\<close>

definition spec_samplingParams :: "string list" where
  "spec_samplingParams =
     [''top_p'', ''top_k'', ''repetition_penalty'', ''presence_penalty'',
      ''frequency_penalty'', ''temperature'', ''maxOutputTokens'']"

definition spec_forwardedName :: "string \<Rightarrow> string" where
  "spec_forwardedName k = (if k = ''maxOutputTokens'' then ''max_tokens'' else k)"

section \<open>\<^verbatim>\<open>countTokens\<close> of openaiAdapter.ts\<close>

text \<open>
  Lines 523 to 532: the text of the first part of the first entry, and
  \<^verbatim>\<open>Math.ceil(text.length / 4)\<close>.
\<close>

definition countedText :: "content list option \<Rightarrow> string" where
  "countedText contents =
     (case contents of
        Some (first # _) \<Rightarrow>
          (case c_parts first of
             Some (p # _) \<Rightarrow> orEmpty (p_text p)
           | _ \<Rightarrow> [])
      | _ \<Rightarrow> [])"

definition countTokens :: "content list option \<Rightarrow> nat" where
  "countTokens contents = (length (countedText contents) + 3) div 4"

text \<open>
  The specification's reading of the input text of a request, to compare the code with:
  all the text a request carries, over every part of every entry.
\<close>

definition spec_inputTextLength :: "content list option \<Rightarrow> nat" where
  "spec_inputTextLength contents =
     (case contents of
        None \<Rightarrow> 0
      | Some cs \<Rightarrow>
          sum_list (map (\<lambda>c. case c_parts c of
                                None \<Rightarrow> 0
                              | Some ps \<Rightarrow> sum_list (map (\<lambda>p. length (orEmpty (p_text p))) ps))
                      cs))"

section \<open>The bound of the reference parser\<close>

text \<open>
  A parse that succeeds with some bound leaves fewer tokens than it was given and
  succeeds, with the same result, with every bound from the number of tokens it consumed
  on. So the bound \<open>JSON_parse\<close> starts with is enough: when \<open>JSON_parse\<close> gives
  \<open>None\<close>, no bound would have given a value.
\<close>

lemma parse_value_scalar:
  assumes "0 < m"
  shows "parse_value m (TString x # r) = Some (JString x, r)"
    and "parse_value m (TNumber i # r) = Some (JNumber i, r)"
    and "parse_value m (TTrue # r) = Some (JBool True, r)"
    and "parse_value m (TFalse # r) = Some (JBool False, r)"
    and "parse_value m (TNull # r) = Some (JNull, r)"
  using assms by (cases m; simp)+

lemma parse_fuel:
  "(\<forall>ts v r. parse_value n ts = Some (v, r) \<longrightarrow>
      length r < length ts \<and> (\<forall>m. length ts - length r \<le> m \<longrightarrow> parse_value m ts = Some (v, r)))
   \<and> (\<forall>acc ts vs r. parse_elements n acc ts = Some (vs, r) \<longrightarrow>
      length r < length ts
      \<and> (\<forall>m. length ts - length r \<le> m \<longrightarrow> parse_elements m acc ts = Some (vs, r)))
   \<and> (\<forall>acc ts ms r. parse_members n acc ts = Some (ms, r) \<longrightarrow>
      length r < length ts
      \<and> (\<forall>m. length ts - length r \<le> m \<longrightarrow> parse_members m acc ts = Some (ms, r)))"
proof (induction n)
  case 0
  then show ?case by simp
next
  case (Suc n)
  have V: "length r < length ts \<and> (\<forall>m. length ts - length r \<le> m \<longrightarrow> parse_value m ts = Some (v, r))"
    if "parse_value (Suc n) ts = Some (v, r)" for ts v r
  proof (cases ts)
    case Nil
    with that show ?thesis by simp
  next
    case (Cons t rest)
    show ?thesis
    proof (cases t)
      case TLBrack
      show ?thesis
      proof (cases "\<exists>r'. rest = TRBrack # r'")
        case True
        then obtain r' where "rest = TRBrack # r'" by blast
        with that Cons TLBrack have r: "r = r'" "v = JArray []" by auto
        have "parse_value m ts = Some (v, r)" if "length ts - length r \<le> m" for m
        proof -
          from that r Cons \<open>rest = TRBrack # r'\<close> obtain k where "m = Suc k"
            by (cases m) auto
          with Cons TLBrack \<open>rest = TRBrack # r'\<close> r show ?thesis by simp
        qed
        with r Cons \<open>rest = TRBrack # r'\<close> show ?thesis by simp
      next
        case False
        with that Cons TLBrack obtain vs where
          e: "parse_elements n [] rest = Some (vs, r)" and v: "v = JArray vs"
          by (auto split: list.splits token.splits)
        from Suc e have l: "length r < length rest"
          and f: "\<And>m. length rest - length r \<le> m \<Longrightarrow> parse_elements m [] rest = Some (vs, r)"
          by blast+
        have "parse_value m ts = Some (v, r)" if "length ts - length r \<le> m" for m
        proof -
          from that l Cons obtain k where k: "m = Suc k" "length rest - length r \<le> k"
            by (cases m) auto
          from f [OF k(2)] False Cons TLBrack v k(1) show ?thesis
            by (auto split: list.splits token.splits)
        qed
        with l Cons show ?thesis by simp
      qed
    next
      case TLBrace
      show ?thesis
      proof (cases "\<exists>r'. rest = TRBrace # r'")
        case True
        then obtain r' where "rest = TRBrace # r'" by blast
        with that Cons TLBrace have r: "r = r'" "v = JObject []" by auto
        have "parse_value m ts = Some (v, r)" if "length ts - length r \<le> m" for m
        proof -
          from that r Cons \<open>rest = TRBrace # r'\<close> obtain k where "m = Suc k"
            by (cases m) auto
          with Cons TLBrace \<open>rest = TRBrace # r'\<close> r show ?thesis by simp
        qed
        with r Cons \<open>rest = TRBrace # r'\<close> show ?thesis by simp
      next
        case False
        with that Cons TLBrace obtain ms where
          e: "parse_members n [] rest = Some (ms, r)" and v: "v = JObject ms"
          by (auto split: list.splits token.splits)
        from Suc e have l: "length r < length rest"
          and f: "\<And>m. length rest - length r \<le> m \<Longrightarrow> parse_members m [] rest = Some (ms, r)"
          by blast+
        have "parse_value m ts = Some (v, r)" if "length ts - length r \<le> m" for m
        proof -
          from that l Cons obtain k where k: "m = Suc k" "length rest - length r \<le> k"
            by (cases m) auto
          from f [OF k(2)] False Cons TLBrace v k(1) show ?thesis
            by (auto split: list.splits token.splits)
        qed
        with l Cons show ?thesis by simp
      qed
    qed (use that Cons in \<open>auto simp: parse_value_scalar\<close>)
  qed
  have E: "length r < length ts
      \<and> (\<forall>m. length ts - length r \<le> m \<longrightarrow> parse_elements m acc ts = Some (vs, r))"
    if "parse_elements (Suc n) acc ts = Some (vs, r)" for acc ts vs r
  proof -
    from that obtain v r1 where pv: "parse_value n ts = Some (v, r1)"
      by (auto split: option.splits)
    from Suc pv have l1: "length r1 < length ts"
      and f1: "\<And>m. length ts - length r1 \<le> m \<Longrightarrow> parse_value m ts = Some (v, r1)"
      by blast+
    show ?thesis
    proof (cases r1)
      case Nil
      with that pv show ?thesis by simp
    next
      case (Cons t r2)
      show ?thesis
      proof (cases t)
        case TComma
        with that pv Cons have pe: "parse_elements n (acc @ [v]) r2 = Some (vs, r)" by simp
        from Suc pe have l2: "length r < length r2"
          and f2: "\<And>m. length r2 - length r \<le> m \<Longrightarrow> parse_elements m (acc @ [v]) r2 = Some (vs, r)"
          by blast+
        have "parse_elements m acc ts = Some (vs, r)" if "length ts - length r \<le> m" for m
        proof -
          from that l1 l2 Cons obtain k where k: "m = Suc k" "length ts - length r1 \<le> k"
            "length r2 - length r \<le> k"
            by (cases m) auto
          from f1 [OF k(2)] f2 [OF k(3)] Cons TComma k(1) show ?thesis by simp
        qed
        with l1 l2 Cons show ?thesis by simp
      next
        case TRBrack
        with that pv Cons have r: "r = r2" "vs = acc @ [v]" by simp_all
        have "parse_elements m acc ts = Some (vs, r)" if "length ts - length r \<le> m" for m
        proof -
          from that l1 r Cons obtain k where k: "m = Suc k" "length ts - length r1 \<le> k"
            by (cases m) auto
          from f1 [OF k(2)] Cons TRBrack r k(1) show ?thesis by simp
        qed
        with l1 r Cons show ?thesis by simp
      qed (use that pv Cons in auto)
    qed
  qed
  have M: "length r < length ts
      \<and> (\<forall>m. length ts - length r \<le> m \<longrightarrow> parse_members m acc ts = Some (ms, r))"
    if "parse_members (Suc n) acc ts = Some (ms, r)" for acc ts ms r
  proof -
    from that obtain k rest where ts: "ts = TString k # TColon # rest"
      by (auto split: list.splits token.splits)
    with that obtain v r1 where pv: "parse_value n rest = Some (v, r1)"
      by (auto split: option.splits)
    from Suc pv have l1: "length r1 < length rest"
      and f1: "\<And>m. length rest - length r1 \<le> m \<Longrightarrow> parse_value m rest = Some (v, r1)"
      by blast+
    show ?thesis
    proof (cases r1)
      case Nil
      with that pv ts show ?thesis by simp
    next
      case (Cons t r2)
      show ?thesis
      proof (cases t)
        case TComma
        with that pv Cons ts have pe: "parse_members n (setMember k v acc) r2 = Some (ms, r)"
          by simp
        from Suc pe have l2: "length r < length r2"
          and f2: "\<And>m. length r2 - length r \<le> m
                    \<Longrightarrow> parse_members m (setMember k v acc) r2 = Some (ms, r)"
          by blast+
        have "parse_members m acc ts = Some (ms, r)" if "length ts - length r \<le> m" for m
        proof -
          from that l1 l2 Cons ts obtain j where j: "m = Suc j" "length rest - length r1 \<le> j"
            "length r2 - length r \<le> j"
            by (cases m) auto
          from f1 [OF j(2)] f2 [OF j(3)] Cons TComma ts j(1) show ?thesis by simp
        qed
        with l1 l2 Cons ts show ?thesis by simp
      next
        case TRBrace
        with that pv Cons ts have r: "r = r2" "ms = setMember k v acc" by simp_all
        have "parse_members m acc ts = Some (ms, r)" if "length ts - length r \<le> m" for m
        proof -
          from that l1 r Cons ts obtain j where j: "m = Suc j" "length rest - length r1 \<le> j"
            by (cases m) auto
          from f1 [OF j(2)] Cons TRBrace r ts j(1) show ?thesis by simp
        qed
        with l1 r Cons ts show ?thesis by simp
      qed (use that pv Cons ts in auto)
    qed
  qed
  from V E M show ?case by blast
qed

lemma JSON_parse_fuel:
  assumes "lex s = Some ts" and "parse_value m ts = Some (v, [])"
  shows "JSON_parse s = Some v"
proof -
  from parse_fuel [of m] assms(2)
  have "\<forall>k. length ts - length ([] :: token list) \<le> k \<longrightarrow> parse_value k ts = Some (v, [])"
    by blast
  then have "parse_value (Suc (length ts)) ts = Some (v, [])"
    by (simp del: parse_value.simps)
  with assms(1) show ?thesis
    by (simp add: JSON_parse_def)
qed

section \<open>Properties of the streaming normalizer\<close>

subsection \<open>One iteration of the loop\<close>

lemma toolCallsChunk_simps:
  "chunk_tool_calls (toolCallsChunk tcs txt finish) = Some tcs"
  "chunk_content (toolCallsChunk tcs txt finish) = txt"
  "chunk_finish_reason (toolCallsChunk tcs txt finish) = finish"
  by (simp_all add: toolCallsChunk_def chunk_tool_calls_def chunk_content_def
      chunk_finish_reason_def chunk_delta_def choice0_def)

lemma toolCallDelta_simps:
  "tcd_index (toolCallDelta i ident nm args) = i"
  "tcd_id (toolCallDelta i ident nm args) = ident"
  "delta_name (toolCallDelta i ident nm args) = nm"
  "delta_arguments (toolCallDelta i ident nm args) = Some args"
  by (simp_all add: toolCallDelta_def delta_name_def delta_arguments_def)

lemma argumentsChunk_simps:
  "chunk_tool_calls (argumentsChunk i ident nm args txt) = Some [toolCallDelta i ident nm args]"
  "chunk_content (argumentsChunk i ident nm args txt) = txt"
  "chunk_finish_reason (argumentsChunk i ident nm args txt) = None"
  "isDone (argumentsChunk i ident nm args txt) = False"
  by (simp_all add: argumentsChunk_def toolCallsChunk_simps isDone_def)

lemma textChunk_simps:
  "chunk_tool_calls (textChunk txt) = None"
  "chunk_content (textChunk txt) = Some txt"
  "chunk_finish_reason (textChunk txt) = None"
  "isDone (textChunk txt) = False"
  by (simp_all add: textChunk_def chunk_tool_calls_def chunk_content_def
      chunk_finish_reason_def chunk_delta_def choice0_def isDone_def)

lemma finishChunk_simps:
  "chunk_tool_calls (finishChunk reason txt) = None"
  "chunk_content (finishChunk reason txt) = txt"
  "chunk_finish_reason (finishChunk reason txt) = Some reason"
  "isDone (finishChunk reason txt) = (reason = ''stop'' \<or> reason = ''tool_calls'')"
  by (simp_all add: finishChunk_def chunk_tool_calls_def chunk_content_def
      chunk_finish_reason_def chunk_delta_def choice0_def isDone_def)

lemma absorb_buffer:
  "toolCallsBuffer (absorb s c) = foldl mergeToolCall (toolCallsBuffer s) (chunkDeltas c)"
  by (simp add: absorb_def chunkDeltas_def Let_def split: option.splits)

lemma absorb_text:
  "accumulatedText (absorb s c) = accumulatedText s @ orEmpty (chunk_content c)"
  by (simp add: absorb_def Let_def truthy_def orEmpty_def split: option.splits)

lemma absorb_flag:
  "hasToolCalls (absorb s c) = (hasToolCalls s \<or> chunk_tool_calls c \<noteq> None)"
  by (simp add: absorb_def Let_def split: option.splits)

lemma step_done:
  "isDone c \<Longrightarrow>
   step parse s c =
     (initial,
      Some (buildResponse (accumulatedText (absorb s c))
              (bufferFunctionCalls parse (toolCallsBuffer (absorb s c)))
              (chunk_finish_reason c)))"
  by (simp add: step_def Let_def initial_def)

lemma step_tool_calls:
  "\<not> isDone c \<Longrightarrow> hasToolCalls (absorb s c) \<Longrightarrow> step parse s c = (absorb s c, None)"
  by (simp add: step_def Let_def)

lemma step_interim:
  "\<not> isDone c \<Longrightarrow> \<not> hasToolCalls (absorb s c) \<Longrightarrow> truthy (chunk_content c) \<Longrightarrow>
   10 \<le> length (accumulatedText (absorb s c)) \<Longrightarrow>
   step parse s c =
     ((absorb s c)\<lparr>accumulatedText := []\<rparr>,
      Some (buildResponse (accumulatedText (absorb s c))
              (bufferFunctionCalls parse (toolCallsBuffer (absorb s c)))
              (chunk_finish_reason c)))"
  by (simp add: step_def Let_def)

lemma initial_simps:
  "toolCallsBuffer initial = []" "accumulatedText initial = []" "hasToolCalls initial = False"
  by (simp_all add: initial_def)

lemma step_flush:
  assumes "step parse s c = (s', Some r)"
  shows "r = buildResponse (accumulatedText (absorb s c))
               (bufferFunctionCalls parse (toolCallsBuffer (absorb s c)))
               (chunk_finish_reason c)"
  using assms by (auto simp: step_def Let_def split: if_splits)

lemma updateExisting_arguments:
  "bf_arguments (bc_function (updateExisting e t)) =
     bf_arguments (bc_function e) @ orEmpty (delta_arguments t)"
  by (simp add: updateExisting_def Let_def truthy_def orEmpty_def split: option.splits)

lemma updateExisting_index: "bc_index (updateExisting e t) = bc_index e"
  by (simp add: updateExisting_def Let_def)

lemma mergeToolCall_Nil: "mergeToolCall [] t = [newToolCall t]"
  by (simp add: mergeToolCall_def)

lemma mergeToolCall_hit:
  "bc_index b = tcd_index t \<Longrightarrow> mergeToolCall (b # bs) t = updateExisting b t # bs"
  by (simp add: mergeToolCall_def)

subsection \<open>Reassembly of split arguments\<close>

text \<open>
  C1. Three chunks carry, for index 0, the argument text in the pieces
  \<open>{"a":\<close>, \<open>1,"b":\<close> and \<open>2}\<close>; a fourth chunk carries the finish reason
  \<open>tool_calls\<close>. Whatever names, ids and text the chunks carry besides, the generator
  yields exactly one response, that response lists exactly one function call, and the
  arguments of the call are what the parser returns for the whole text \<open>{"a":1,"b":2}\<close>.
\<close>

theorem reassembly_of_split_arguments:
  assumes "parse ''{\"a\":1,\"b\":2}'' = Some v"
  shows "\<exists>r fc. gen parse [argumentsChunk 0 i1 n1 ''{\"a\":'' t1,
                           argumentsChunk 0 i2 n2 ''1,\"b\":'' t2,
                           argumentsChunk 0 i3 n3 ''2}'' t3,
                           finishChunk ''tool_calls'' t4] = [r]
               \<and> functionCalls r = Some [fc] \<and> fc_args fc = v"
proof -
  let ?c1 = "argumentsChunk 0 i1 n1 ''{\"a\":'' t1"
  let ?c2 = "argumentsChunk 0 i2 n2 ''1,\"b\":'' t2"
  let ?c3 = "argumentsChunk 0 i3 n3 ''2}'' t3"
  let ?c4 = "finishChunk ''tool_calls'' t4"
  let ?s1 = "absorb initial ?c1"
  let ?s2 = "absorb ?s1 ?c2"
  let ?s3 = "absorb ?s2 ?c3"
  let ?s4 = "absorb ?s3 ?c4"
  let ?r = "buildResponse (accumulatedText ?s4)
              (bufferFunctionCalls parse (toolCallsBuffer ?s4)) (Some ''tool_calls'')"
  have st1: "step parse initial ?c1 = (?s1, None)"
    by (rule step_tool_calls) (simp_all add: argumentsChunk_simps absorb_flag)
  have st2: "step parse ?s1 ?c2 = (?s2, None)"
    by (rule step_tool_calls) (simp_all add: argumentsChunk_simps absorb_flag)
  have st3: "step parse ?s2 ?c3 = (?s3, None)"
    by (rule step_tool_calls) (simp_all add: argumentsChunk_simps absorb_flag)
  have st4: "step parse ?s3 ?c4 = (initial, Some ?r)"
    by (simp add: step_done finishChunk_simps)
  obtain b where buf: "toolCallsBuffer ?s4 = [b]"
    and args: "bf_arguments (bc_function b) = ''{\"a\":1,\"b\":2}''"
    by (simp add: absorb_buffer chunkDeltas_def argumentsChunk_simps finishChunk_simps
        initial_def mergeToolCall_Nil mergeToolCall_hit newToolCall_def
        updateExisting_arguments updateExisting_index toolCallDelta_simps orEmpty_def)
  have "gen parse [?c1, ?c2, ?c3, ?c4] = [?r]"
    by (simp add: gen_def st1 st2 st3 st4)
  moreover have "functionCalls ?r = Some [toFunctionCall parse b]"
    by (simp add: buf bufferFunctionCalls_def buildResponse_def Let_def)
  moreover have "fc_args (toFunctionCall parse b) = v"
    using assms by (simp add: toFunctionCall_def parseArgs_def args)
  ultimately show ?thesis
    by blast
qed

lemma JSON_parse_a1_b2:
  "JSON_parse ''{\"a\":1,\"b\":2}'' = Some (JObject [(''a'', JNumber 1), (''b'', JNumber 2)])"
  by code_simp

theorem reassembly_of_split_arguments_witness:
  "JSON_parse ''{\"a\":1,\"b\":2}'' = Some (JObject [(''a'', JNumber 1), (''b'', JNumber 2)])
   \<and> (\<exists>r fc. gen JSON_parse
                 [argumentsChunk 0 (Some ''call_1'') (Some ''f'') ''{\"a\":'' None,
                  argumentsChunk 0 None None ''1,\"b\":'' None,
                  argumentsChunk 0 None None ''2}'' None,
                  finishChunk ''tool_calls'' None] = [r]
          \<and> functionCalls r = Some [fc]
          \<and> fc_args fc = JObject [(''a'', JNumber 1), (''b'', JNumber 2)])"
  using reassembly_of_split_arguments [where parse = JSON_parse, OF JSON_parse_a1_b2]
    JSON_parse_a1_b2 by blast

lemma reassembly_example:
  "gen JSON_parse
     [argumentsChunk 0 (Some ''call_1'') (Some ''f'') ''{\"a\":'' None,
      argumentsChunk 0 None None ''1,\"b\":'' None,
      argumentsChunk 0 None None ''2}'' None,
      finishChunk ''tool_calls'' None] =
   [\<lparr>candidates =
       [\<lparr>cand_parts =
           [FunctionCallPart ''f'' (JObject [(''a'', JNumber 1), (''b'', JNumber 2)])],
         cand_role = ''model'', cand_index = 0,
         cand_finishReason = Some ''tool_calls''\<rparr>],
     resp_text = [],
     functionCalls =
       Some [\<lparr>fc_name = ''f'',
              fc_args = JObject [(''a'', JNumber 1), (''b'', JNumber 2)],
              fc_id = Some ''call_1''\<rparr>]\<rparr>]"
  by code_simp

subsection \<open>The merge by index\<close>

lemma findIndex_ge: "- 1 \<le> findIndex P xs"
  by (induction xs) (auto simp: Let_def)

lemma mergeToolCall_Cons:
  "mergeToolCall (b # bs) t =
     (if bc_index b = tcd_index t then updateExisting b t # bs else b # mergeToolCall bs t)"
proof (cases "bc_index b = tcd_index t")
  case True
  then show ?thesis by (simp add: mergeToolCall_def)
next
  case False
  let ?i = "findIndex (\<lambda>tc. bc_index tc = tcd_index t) bs"
  show ?thesis
  proof (cases "?i < 0")
    case True
    with False show ?thesis by (simp add: mergeToolCall_def Let_def)
  next
    case neg: False
    then have "nat (?i + 1) = Suc (nat ?i)" by simp
    with False neg show ?thesis by (simp add: mergeToolCall_def Let_def)
  qed
qed

lemma mergeToolCall_indices:
  "map bc_index (mergeToolCall buf t) =
     (if tcd_index t \<in> set (map bc_index buf) then map bc_index buf
      else map bc_index buf @ [tcd_index t])"
proof (induction buf)
  case Nil
  then show ?case by (simp add: mergeToolCall_Nil newToolCall_def)
next
  case (Cons b bs)
  then show ?case by (auto simp: mergeToolCall_Cons updateExisting_index)
qed

lemma mergeToolCall_arguments:
  assumes "distinct (map bc_index buf)"
    and "list_all (\<lambda>b. bf_arguments (bc_function b) = argumentPieces (bc_index b) ds) buf"
    and "set (map bc_index buf) = set (map tcd_index ds)"
  shows "list_all (\<lambda>b. bf_arguments (bc_function b) = argumentPieces (bc_index b) (ds @ [t]))
           (mergeToolCall buf t)"
proof -
  have fresh: "argumentPieces (tcd_index t) ds = []" if "tcd_index t \<notin> set (map bc_index buf)"
  proof -
    from that assms(3) have "tcd_index t \<notin> tcd_index ` set ds"
      by simp
    then have "\<forall>d\<in>set ds. tcd_index d \<noteq> tcd_index t"
      by (metis image_eqI)
    then have "filter (\<lambda>d. tcd_index d = tcd_index t) ds = []"
      by (simp add: filter_empty_conv)
    then show ?thesis by (simp add: argumentPieces_def)
  qed
  have step: "list_all (\<lambda>b. bf_arguments (bc_function b) = argumentPieces (bc_index b) (ds @ [t]))
           (mergeToolCall bs t)"
    if "distinct (map bc_index bs)"
      and "list_all (\<lambda>b. bf_arguments (bc_function b) = argumentPieces (bc_index b) ds) bs"
      and "tcd_index t \<notin> set (map bc_index bs) \<Longrightarrow> argumentPieces (tcd_index t) ds = []"
    for bs
    using that
  proof (induction bs)
    case Nil
    then show ?case
      by (simp add: mergeToolCall_Nil newToolCall_def argumentPieces_def)
  next
    case (Cons b bs)
    show ?case
    proof (cases "bc_index b = tcd_index t")
      case True
      from Cons.prems(1) have "bc_index b \<notin> bc_index ` set bs"
        by simp
      with True have "\<forall>x\<in>set bs. bc_index x \<noteq> tcd_index t"
        by (metis image_eqI)
      then have "list_all (\<lambda>x. bc_index x \<noteq> tcd_index t) bs"
        by (simp add: list_all_iff)
      with Cons.prems(2) have "list_all (\<lambda>b. bf_arguments (bc_function b)
                                  = argumentPieces (bc_index b) (ds @ [t])) bs"
        by (auto simp: list_all_iff argumentPieces_def)
      with True Cons.prems(2) show ?thesis
        by (simp add: mergeToolCall_Cons updateExisting_arguments updateExisting_index
            argumentPieces_def)
    next
      case False
      have "list_all (\<lambda>b. bf_arguments (bc_function b) = argumentPieces (bc_index b) (ds @ [t]))
              (mergeToolCall bs t)"
        using Cons.prems False by (intro Cons.IH) auto
      with False Cons.prems(2) show ?thesis
        by (simp add: mergeToolCall_Cons argumentPieces_def)
    qed
  qed
  show ?thesis
    using assms(1,2) fresh by (rule step)
qed

lemma merge_all:
  "distinct (map bc_index (foldl mergeToolCall [] ds))
   \<and> set (map bc_index (foldl mergeToolCall [] ds)) = set (map tcd_index ds)
   \<and> list_all (\<lambda>b. bf_arguments (bc_function b) = argumentPieces (bc_index b) ds)
        (foldl mergeToolCall [] ds)"
proof (induction ds rule: rev_induct)
  case Nil
  then show ?case by simp
next
  case (snoc t ds)
  let ?buf = "foldl mergeToolCall [] ds"
  from snoc have d: "distinct (map bc_index ?buf)"
    and s: "set (map bc_index ?buf) = set (map tcd_index ds)"
    and a: "list_all (\<lambda>b. bf_arguments (bc_function b) = argumentPieces (bc_index b) ds) ?buf"
    by simp_all
  have "distinct (map bc_index (mergeToolCall ?buf t))"
    using d by (simp add: mergeToolCall_indices)
  moreover have "set (map bc_index (mergeToolCall ?buf t)) = set (map tcd_index (ds @ [t]))"
    using s by (auto simp: mergeToolCall_indices)
  moreover note mergeToolCall_arguments [OF d a s, of t]
  ultimately show ?case by simp
qed


subsection \<open>Flushes and the fragment set\<close>

lemma step_emits_iff:
  "(snd (step parse s c) \<noteq> None) =
     (isDone c \<or> (\<not> hasToolCalls (absorb s c) \<and> truthy (chunk_content c)
                    \<and> 10 \<le> length (accumulatedText (absorb s c))))"
  by (auto simp: step_def Let_def)

lemma step_text:
  "accumulatedText (fst (step parse s c)) =
     (if snd (step parse s c) = None then accumulatedText (absorb s c) else [])"
  by (simp add: step_def Let_def)

lemma step_buffer:
  "toolCallsBuffer (fst (step parse s c)) =
     (if isDone c then [] else toolCallsBuffer (absorb s c))"
  by (simp add: step_def Let_def)

lemma step_flag:
  "hasToolCalls (fst (step parse s c)) = (if isDone c then False else hasToolCalls (absorb s c))"
  by (simp add: step_def Let_def)

lemma mergeChunks_snoc:
  "mergeChunks buf (cs @ [c]) = foldl mergeToolCall (mergeChunks buf cs) (chunkDeltas c)"
  by (simp add: mergeChunks_def)

lemma mergeChunks_Cons:
  "mergeChunks buf (c # cs) = mergeChunks (foldl mergeToolCall buf (chunkDeltas c)) cs"
  by (simp add: mergeChunks_def)

lemma state_after_buffer:
  "list_all (\<lambda>x. \<not> isDone x) cs \<Longrightarrow>
   toolCallsBuffer (state_after parse s cs) = mergeChunks (toolCallsBuffer s) cs"
proof (induction cs arbitrary: s)
  case Nil
  then show ?case by (simp add: mergeChunks_def)
next
  case (Cons c cs)
  then show ?case
    by (simp add: mergeChunks_Cons step_buffer absorb_buffer)
qed

lemma gen_from_append:
  "gen_from parse s (cs @ ds) = gen_from parse s cs @ gen_from parse (state_after parse s cs) ds"
  by (induction cs arbitrary: s) (auto split: prod.splits option.splits)

lemma completion_flush:
  assumes "list_all (\<lambda>x. \<not> isDone x) cs" and "isDone c"
  shows "\<exists>r. gen parse (cs @ [c]) = gen parse cs @ [r]
            \<and> functionCalls r = bufferFunctionCalls parse (mergeChunks [] (cs @ [c]))"
proof -
  let ?s = "state_after parse initial cs"
  let ?r = "buildResponse (accumulatedText (absorb ?s c))
              (bufferFunctionCalls parse (toolCallsBuffer (absorb ?s c)))
              (chunk_finish_reason c)"
  have "toolCallsBuffer ?s = mergeChunks [] cs"
    using assms(1) by (simp add: state_after_buffer initial_def)
  then have "toolCallsBuffer (absorb ?s c) = mergeChunks [] (cs @ [c])"
    by (simp add: absorb_buffer mergeChunks_snoc)
  then have "functionCalls ?r = bufferFunctionCalls parse (mergeChunks [] (cs @ [c]))"
    by (simp add: buildResponse_def Let_def)
  moreover have "gen parse (cs @ [c]) = gen parse cs @ [?r]"
    using assms(2) by (simp add: gen_def gen_from_append step_done)
  ultimately show ?thesis by blast
qed

text \<open>
  C2. After a step that yields a response the text buffer is empty. The fragment set
  and the flag are cleared by a step exactly when its chunk signals completion (and such
  a step always yields a response); any other step, an interim flush included, leaves
  them as the merge of the chunk made them. Consequently, for chunks \<open>cs\<close> none of which
  signals completion, followed by a chunk \<open>c\<close> that does: whatever responses \<open>cs\<close> gave
  rise to, the completion response comes after them and lists the calls of all the
  tool-call deltas of \<open>cs\<close> and \<open>c\<close> merged by index; the merged set has one fragment
  per index, and the argument text of each is the concatenation, in arrival order, of
  the pieces delivered for its index.
\<close>

theorem interim_flush_keeps_tool_calls:
  assumes "list_all (\<lambda>x. \<not> isDone x) cs" and "isDone c"
  shows "accumulatedText (fst (step parse s ch)) =
           (if snd (step parse s ch) = None then accumulatedText (absorb s ch) else [])
       \<and> toolCallsBuffer (fst (step parse s ch)) =
           (if isDone ch then [] else toolCallsBuffer (absorb s ch))
       \<and> hasToolCalls (fst (step parse s ch)) =
           (if isDone ch then False else hasToolCalls (absorb s ch))
       \<and> (if isDone ch then snd (step parse s ch) \<noteq> None else True)
       \<and> (\<exists>r. gen parse (cs @ [c]) = gen parse cs @ [r]
              \<and> functionCalls r = bufferFunctionCalls parse (mergeChunks [] (cs @ [c])))
       \<and> distinct (map bc_index (mergeChunks [] (cs @ [c])))
       \<and> set (map bc_index (mergeChunks [] (cs @ [c])))
           = set (map tcd_index (concat (map chunkDeltas (cs @ [c]))))
       \<and> list_all (\<lambda>b. bf_arguments (bc_function b)
                          = argumentPieces (bc_index b) (concat (map chunkDeltas (cs @ [c]))))
           (mergeChunks [] (cs @ [c]))"
proof -
  have "if isDone ch then snd (step parse s ch) \<noteq> None else True"
    using step_emits_iff [of parse s ch] by auto
  moreover note completion_flush [OF assms, of parse]
    merge_all [of "concat (map chunkDeltas (cs @ [c]))"]
  ultimately show ?thesis
    unfolding mergeChunks_def
    by (simp only: step_text step_buffer step_flag simp_thms)
qed

lemma interim_example_not_done:
  "list_all (\<lambda>x. \<not> isDone x)
     [textChunk ''Hello, world!'',
      argumentsChunk 0 (Some ''call_1'') (Some ''f'') ''{\"a\":'' None,
      argumentsChunk 0 None None ''1}'' None]"
  by (simp add: textChunk_simps argumentsChunk_simps)

lemma interim_example_done: "isDone (finishChunk ''tool_calls'' None)"
  by (simp add: finishChunk_simps)

lemma interim_example_flush:
  "gen JSON_parse
     [textChunk ''Hello, world!'',
      argumentsChunk 0 (Some ''call_1'') (Some ''f'') ''{\"a\":'' None,
      argumentsChunk 0 None None ''1}'' None] =
   [\<lparr>candidates =
       [\<lparr>cand_parts = [TextPart ''Hello, world!''], cand_role = ''model'', cand_index = 0,
         cand_finishReason = None\<rparr>],
     resp_text = ''Hello, world!'',
     functionCalls = None\<rparr>]"
  by code_simp

lemma interim_example_merged:
  "bufferFunctionCalls JSON_parse
     (mergeChunks []
        ([textChunk ''Hello, world!'',
          argumentsChunk 0 (Some ''call_1'') (Some ''f'') ''{\"a\":'' None,
          argumentsChunk 0 None None ''1}'' None] @ [finishChunk ''tool_calls'' None])) =
   Some [\<lparr>fc_name = ''f'', fc_args = JObject [(''a'', JNumber 1)], fc_id = Some ''call_1''\<rparr>]"
  by code_simp

theorem interim_flush_keeps_tool_calls_witness:
  "list_all (\<lambda>x. \<not> isDone x)
     [textChunk ''Hello, world!'',
      argumentsChunk 0 (Some ''call_1'') (Some ''f'') ''{\"a\":'' None,
      argumentsChunk 0 None None ''1}'' None]
   \<and> isDone (finishChunk ''tool_calls'' None)
   \<and> length (gen JSON_parse
                [textChunk ''Hello, world!'',
                 argumentsChunk 0 (Some ''call_1'') (Some ''f'') ''{\"a\":'' None,
                 argumentsChunk 0 None None ''1}'' None]) = 1
   \<and> (\<exists>r. gen JSON_parse
               ([textChunk ''Hello, world!'',
                 argumentsChunk 0 (Some ''call_1'') (Some ''f'') ''{\"a\":'' None,
                 argumentsChunk 0 None None ''1}'' None] @ [finishChunk ''tool_calls'' None])
            = gen JSON_parse
                [textChunk ''Hello, world!'',
                 argumentsChunk 0 (Some ''call_1'') (Some ''f'') ''{\"a\":'' None,
                 argumentsChunk 0 None None ''1}'' None] @ [r]
          \<and> functionCalls r =
              Some [\<lparr>fc_name = ''f'', fc_args = JObject [(''a'', JNumber 1)],
                     fc_id = Some ''call_1''\<rparr>])"
  using interim_flush_keeps_tool_calls
          [OF interim_example_not_done interim_example_done, where parse = JSON_parse]
    interim_example_not_done interim_example_done
  by (simp only: interim_example_merged interim_example_flush list.size) simp

text \<open>
  While no tool-call delta has arrived since the start or the last completion, the
  fragment set is empty: an interim flush, which needs the flag to be off, never has a
  fragment to report or to lose.
\<close>

lemma step_keeps_flag_invariant:
  assumes "hasToolCalls s \<or> toolCallsBuffer s = []"
  shows "hasToolCalls (fst (step parse s c)) \<or> toolCallsBuffer (fst (step parse s c)) = []"
proof (cases "isDone c")
  case True
  then show ?thesis by (simp add: step_buffer)
next
  case False
  show ?thesis
  proof (cases "chunk_tool_calls c")
    case None
    with False assms show ?thesis
      by (simp add: step_buffer step_flag absorb_buffer absorb_flag chunkDeltas_def)
  next
    case (Some tcs)
    with False show ?thesis
      by (simp add: step_flag absorb_flag)
  qed
qed

lemma no_fragments_without_flag:
  "hasToolCalls (state_after parse initial cs) \<or> toolCallsBuffer (state_after parse initial cs) = []"
proof -
  have "hasToolCalls (state_after parse s cs) \<or> toolCallsBuffer (state_after parse s cs) = []"
    if "hasToolCalls s \<or> toolCallsBuffer s = []" for s
    using that
  proof (induction cs arbitrary: s)
    case Nil
    then show ?case by simp
  next
    case (Cons c cs)
    from step_keeps_flag_invariant [OF Cons.prems, of parse c]
    show ?case by (simp add: Cons.IH)
  qed
  then show ?thesis by (simp add: initial_simps)
qed

lemma interim_flush_reports_no_calls:
  assumes "step parse (state_after parse initial cs) c = (s', Some r)" and "\<not> isDone c"
  shows "functionCalls r = None"
proof -
  let ?s = "state_after parse initial cs"
  from assms have off: "\<not> hasToolCalls (absorb ?s c)"
    by (auto simp: step_def Let_def split: if_splits)
  then have "\<not> hasToolCalls ?s" and "chunk_tool_calls c = None"
    by (simp_all add: absorb_flag)
  with no_fragments_without_flag [of parse cs] have "toolCallsBuffer (absorb ?s c) = []"
    by (simp add: absorb_buffer chunkDeltas_def)
  with step_flush [OF assms(1)] show ?thesis
    by (simp add: buildResponse_def bufferFunctionCalls_def Let_def)
qed

subsection \<open>Arguments that do not parse\<close>

lemma step_state_any_parser: "fst (step parse s c) = fst (step parse' s c)"
  by (simp add: step_def Let_def)

lemma step_emits_any_parser:
  "(snd (step parse s c) = None) = (snd (step parse' s c) = None)"
  by (simp add: step_def Let_def)

lemma gen_from_length_any_parser:
  "length (gen_from parse s cs) = length (gen_from parse' s cs)"
proof (induction cs arbitrary: s)
  case Nil
  then show ?case by simp
next
  case (Cons c cs)
  obtain s1 o1 where p1: "step parse s c = (s1, o1)" by (cases "step parse s c")
  obtain s2 o2 where p2: "step parse' s c = (s2, o2)" by (cases "step parse' s c")
  from p1 p2 step_state_any_parser [of parse s c parse'] have "s2 = s1" by simp
  moreover from p1 p2 step_emits_any_parser [of parse s c parse']
  have "(o1 = None) = (o2 = None)" by simp
  ultimately show ?case
    using p1 p2 Cons.IH [of s1] by (cases o1; cases o2) simp_all
qed

text \<open>
  C7. At a flush, a fragment whose argument text the parser rejects becomes a call with
  the empty object as its arguments: the response still lists one call per fragment,
  it is yielded, and the generator goes on with the chunks that follow. Neither the
  state after the step nor the number of responses of a stream depends on what the
  parser does: with a parser that rejects every text the stream yields as many
  responses as with any other.
\<close>

theorem parse_failure_yields_empty_args:
  assumes "step parse s c = (s', Some r)"
    and "i < length (toolCallsBuffer (absorb s c))"
    and "parse (bf_arguments (bc_function (toolCallsBuffer (absorb s c) ! i))) = None"
  shows "(\<exists>fcs. functionCalls r = Some fcs
               \<and> length fcs = length (toolCallsBuffer (absorb s c))
               \<and> fc_args (fcs ! i) = JObject [])
       \<and> gen_from parse s (c # rest) = r # gen_from parse s' rest
       \<and> s' = fst (step (\<lambda>_. None) s c)
       \<and> length (gen parse cs) = length (gen (\<lambda>_. None) cs)"
proof -
  let ?buf = "toolCallsBuffer (absorb s c)"
  have r: "functionCalls r = bufferFunctionCalls parse ?buf"
    using step_flush [OF assms(1)] by (simp add: buildResponse_def Let_def)
  from assms(2) have "bufferFunctionCalls parse ?buf = Some (map (toFunctionCall parse) ?buf)"
    by (auto simp: bufferFunctionCalls_def)
  moreover have "fc_args (map (toFunctionCall parse) ?buf ! i) = JObject []"
    using assms(2,3) by (simp add: toFunctionCall_def parseArgs_def)
  ultimately have "\<exists>fcs. functionCalls r = Some fcs \<and> length fcs = length ?buf
                       \<and> fc_args (fcs ! i) = JObject []"
    using r by simp
  moreover have "gen_from parse s (c # rest) = r # gen_from parse s' rest"
    using assms(1) by simp
  moreover have "s' = fst (step (\<lambda>_. None) s c)"
    using assms(1) step_state_any_parser [of parse s c "\<lambda>_. None"] by simp
  moreover have "length (gen parse cs) = length (gen (\<lambda>_. None) cs)"
    by (simp add: gen_def gen_from_length_any_parser [of parse initial cs "\<lambda>_. None"])
  ultimately show ?thesis by blast
qed

lemma JSON_parse_incomplete: "JSON_parse ''{\"a\":'' = None"
  by code_simp

lemma malformed_example_buffer:
  "toolCallsBuffer
     (absorb (absorb initial (argumentsChunk 0 (Some ''call_1'') (Some ''f'') ''{\"a\":'' None))
        (finishChunk ''tool_calls'' None))
   = [\<lparr>bc_index = 0, bc_function = \<lparr>bf_name = ''f'', bf_arguments = ''{\"a\":''\<rparr>,
       bc_id = Some ''call_1''\<rparr>]"
  by (simp add: absorb_buffer chunkDeltas_def argumentsChunk_simps finishChunk_simps initial_def
      mergeToolCall_Nil newToolCall_def toolCallDelta_simps orEmpty_def)

lemma malformed_example_flush:
  "step JSON_parse
     (absorb initial (argumentsChunk 0 (Some ''call_1'') (Some ''f'') ''{\"a\":'' None))
     (finishChunk ''tool_calls'' None)
   = (initial,
      Some \<lparr>candidates =
              [\<lparr>cand_parts = [FunctionCallPart ''f'' (JObject [])], cand_role = ''model'',
                cand_index = 0, cand_finishReason = Some ''tool_calls''\<rparr>],
            resp_text = [],
            functionCalls =
              Some [\<lparr>fc_name = ''f'', fc_args = JObject [], fc_id = Some ''call_1''\<rparr>]\<rparr>)"
  by (simp add: step_done finishChunk_simps argumentsChunk_simps absorb_text malformed_example_buffer
      buildResponse_def buildParts_def bufferFunctionCalls_def toFunctionCall_def parseArgs_def
      JSON_parse_incomplete orEmpty_def initial_simps Let_def)


theorem parse_failure_yields_empty_args_witness:
  "JSON_parse ''{\"a\":'' = None
   \<and> (\<exists>s' r fcs.
         step JSON_parse
           (absorb initial (argumentsChunk 0 (Some ''call_1'') (Some ''f'') ''{\"a\":'' None))
           (finishChunk ''tool_calls'' None) = (s', Some r)
       \<and> functionCalls r = Some fcs \<and> length fcs = 1 \<and> fc_args (fcs ! 0) = JObject []
       \<and> gen_from JSON_parse
           (absorb initial (argumentsChunk 0 (Some ''call_1'') (Some ''f'') ''{\"a\":'' None))
           [finishChunk ''tool_calls'' None, textChunk ''Hello, world!'']
          = r # gen_from JSON_parse s' [textChunk ''Hello, world!''])"
proof -
  let ?s = "absorb initial (argumentsChunk 0 (Some ''call_1'') (Some ''f'') ''{\"a\":'' None)"
  let ?c = "finishChunk ''tool_calls'' None"
  let ?r = "\<lparr>candidates =
              [\<lparr>cand_parts = [FunctionCallPart ''f'' (JObject [])], cand_role = ''model'',
                cand_index = 0, cand_finishReason = Some ''tool_calls''\<rparr>],
            resp_text = [],
            functionCalls =
              Some [\<lparr>fc_name = ''f'', fc_args = JObject [], fc_id = Some ''call_1''\<rparr>]\<rparr>"
  have i: "0 < length (toolCallsBuffer (absorb ?s ?c))"
    by (simp only: malformed_example_buffer) simp
  have p: "JSON_parse (bf_arguments (bc_function (toolCallsBuffer (absorb ?s ?c) ! 0))) = None"
    by (simp only: malformed_example_buffer) (simp add: JSON_parse_incomplete)
  from parse_failure_yields_empty_args
         [OF malformed_example_flush i p, of "[textChunk ''Hello, world!'']" "[]"]
  have "gen_from JSON_parse ?s [?c, textChunk ''Hello, world!'']
          = ?r # gen_from JSON_parse initial [textChunk ''Hello, world!'']"
    by blast
  then show ?thesis
    using JSON_parse_incomplete malformed_example_flush by auto
qed

lemma malformed_example_stream:
  "gen JSON_parse
     [argumentsChunk 0 (Some ''call_1'') (Some ''f'') ''{\"a\":'' None,
      finishChunk ''tool_calls'' None,
      textChunk ''Hello, world!'',
      finishChunk ''stop'' None] =
   [\<lparr>candidates =
       [\<lparr>cand_parts = [FunctionCallPart ''f'' (JObject [])], cand_role = ''model'',
         cand_index = 0, cand_finishReason = Some ''tool_calls''\<rparr>],
     resp_text = [],
     functionCalls = Some [\<lparr>fc_name = ''f'', fc_args = JObject [], fc_id = Some ''call_1''\<rparr>]\<rparr>,
    \<lparr>candidates =
       [\<lparr>cand_parts = [TextPart ''Hello, world!''], cand_role = ''model'', cand_index = 0,
         cand_finishReason = None\<rparr>],
     resp_text = ''Hello, world!'',
     functionCalls = None\<rparr>,
    \<lparr>candidates =
       [\<lparr>cand_parts = [TextPart []], cand_role = ''model'', cand_index = 0,
         cand_finishReason = Some ''stop''\<rparr>],
     resp_text = [],
     functionCalls = None\<rparr>]"
  by code_simp

text \<open>
  The call without streaming treats the arguments the same way (lines 317 to 335): a
  tool call whose arguments the parser rejects is reported with the empty object.
\<close>

lemma generateContent_parse_failure:
  assumes "cmp_choices c = ch # rest"
    and "cm_tool_calls (cc_message ch) = Some tcs"
    and "i < length tcs"
    and "ctc_function (tcs ! i) = Some f" and "fd_arguments f = Some a" and "parse a = None"
  shows "\<exists>r fcs. generateContent_response parse c = Inr r \<and> functionCalls r = Some fcs
           \<and> length fcs = length tcs \<and> fc_args (fcs ! i) = JObject []"
  using assms
  by (simp add: generateContent_response_def completionFunctionCall_def parseArgs_def orEmpty_def)

subsection \<open>Several calls at one flush\<close>

text \<open>
  C10. At a flush with more than one fragment in the buffer, the top-level
  \<open>functionCalls\<close> lists one call per fragment, in buffer order, while the parts of the
  single candidate are the accumulated text, if any, followed by exactly one
  function-call part, built from the name and the arguments of the first call.
\<close>

theorem parts_carry_only_first_call:
  assumes "step parse s c = (s', Some r)"
    and "1 < length (toolCallsBuffer (absorb s c))"
  shows "\<exists>cand fc fcs.
           candidates r = [cand]
         \<and> functionCalls r = Some (fc # fcs) \<and> fcs \<noteq> []
         \<and> fc # fcs = map (toFunctionCall parse) (toolCallsBuffer (absorb s c))
         \<and> cand_parts cand =
             (if accumulatedText (absorb s c) = [] then []
              else [TextPart (accumulatedText (absorb s c))])
             @ [FunctionCallPart (fc_name fc) (fc_args fc)]"
proof -
  let ?buf = "toolCallsBuffer (absorb s c)"
  from assms(2) obtain b1 b2 bs where buf: "?buf = b1 # b2 # bs"
    by (cases ?buf; cases "tl ?buf") auto
  have "r = buildResponse (accumulatedText (absorb s c))
              (bufferFunctionCalls parse ?buf) (chunk_finish_reason c)"
    by (rule step_flush [OF assms(1)])
  then show ?thesis
    by (simp add: buf buildResponse_def buildParts_def bufferFunctionCalls_def Let_def)
qed

lemma two_calls_example_buffer:
  "toolCallsBuffer (absorb initial
     (toolCallsChunk [toolCallDelta 0 (Some ''call_1'') (Some ''f'') ''{}'',
                      toolCallDelta 1 (Some ''call_2'') (Some ''g'') ''[1]'']
        (Some ''hi'') (Some ''tool_calls''))) = 
    [\<lparr>bc_index = 0, bc_function = \<lparr>bf_name = ''f'', bf_arguments = ''{}''\<rparr>,
       bc_id = Some ''call_1''\<rparr>,
     \<lparr>bc_index = 1, bc_function = \<lparr>bf_name = ''g'', bf_arguments = ''[1]''\<rparr>,
       bc_id = Some ''call_2''\<rparr>]"
  by (simp add: absorb_buffer chunkDeltas_def toolCallsChunk_simps initial_simps
      mergeToolCall_Nil mergeToolCall_Cons newToolCall_def toolCallDelta_simps orEmpty_def)

lemma JSON_parse_examples:
  "JSON_parse ''{}'' = Some (JObject [])" "JSON_parse ''[1]'' = Some (JArray [JNumber 1])"
  by code_simp+

lemma two_calls_example_step:
  "step JSON_parse initial
     (toolCallsChunk [toolCallDelta 0 (Some ''call_1'') (Some ''f'') ''{}'',
                      toolCallDelta 1 (Some ''call_2'') (Some ''g'') ''[1]'']
        (Some ''hi'') (Some ''tool_calls''))
   = (initial,
      Some \<lparr>candidates =
              [\<lparr>cand_parts = [TextPart ''hi'', FunctionCallPart ''f'' (JObject [])],
                cand_role = ''model'', cand_index = 0,
                cand_finishReason = Some ''tool_calls''\<rparr>],
            resp_text = ''hi'',
            functionCalls =
              Some [\<lparr>fc_name = ''f'', fc_args = JObject [], fc_id = Some ''call_1''\<rparr>,
                    \<lparr>fc_name = ''g'', fc_args = JArray [JNumber 1], fc_id = Some ''call_2''\<rparr>]\<rparr>)"
  by (simp add: step_done isDone_def toolCallsChunk_simps absorb_text two_calls_example_buffer
      buildResponse_def buildParts_def bufferFunctionCalls_def toFunctionCall_def parseArgs_def
      JSON_parse_examples orEmpty_def initial_simps Let_def)

theorem parts_carry_only_first_call_witness:
  "\<exists>s' r cand fc fcs.
      step JSON_parse initial
        (toolCallsChunk [toolCallDelta 0 (Some ''call_1'') (Some ''f'') ''{}'',
                         toolCallDelta 1 (Some ''call_2'') (Some ''g'') ''[1]'']
           (Some ''hi'') (Some ''tool_calls'')) = (s', Some r)
    \<and> candidates r = [cand]
    \<and> functionCalls r = Some (fc # fcs)
    \<and> map fc_name (fc # fcs) = [''f'', ''g'']
    \<and> cand_parts cand = [TextPart ''hi'', FunctionCallPart (fc_name fc) (fc_args fc)]"
proof -
  let ?c = "toolCallsChunk [toolCallDelta 0 (Some ''call_1'') (Some ''f'') ''{}'',
                            toolCallDelta 1 (Some ''call_2'') (Some ''g'') ''[1]'']
              (Some ''hi'') (Some ''tool_calls'')"
  let ?r = "\<lparr>candidates =
              [\<lparr>cand_parts = [TextPart ''hi'', FunctionCallPart ''f'' (JObject [])],
                cand_role = ''model'', cand_index = 0,
                cand_finishReason = Some ''tool_calls''\<rparr>],
            resp_text = ''hi'',
            functionCalls =
              Some [\<lparr>fc_name = ''f'', fc_args = JObject [], fc_id = Some ''call_1''\<rparr>,
                    \<lparr>fc_name = ''g'', fc_args = JArray [JNumber 1], fc_id = Some ''call_2''\<rparr>]\<rparr>"
  have two: "1 < length (toolCallsBuffer (absorb initial ?c))"
    by (simp only: two_calls_example_buffer) simp
  have acc: "accumulatedText (absorb initial ?c) = ''hi''"
    by (simp add: absorb_text toolCallsChunk_simps initial_simps orEmpty_def)
  from parts_carry_only_first_call [OF two_calls_example_step two]
  obtain cand fc fcs where c: "candidates ?r = [cand]"
    and f: "functionCalls ?r = Some (fc # fcs)"
    and p: "cand_parts cand =
             (if accumulatedText (absorb initial ?c) = [] then []
              else [TextPart (accumulatedText (absorb initial ?c))])
             @ [FunctionCallPart (fc_name fc) (fc_args fc)]"
    by blast
  from p have p': "cand_parts cand = [TextPart ''hi'', FunctionCallPart (fc_name fc) (fc_args fc)]"
    by (simp add: acc)
  from f have n: "map fc_name (fc # fcs) = [''f'', ''g'']"
    by auto
  have "step JSON_parse initial ?c = (initial, Some ?r)
      \<and> candidates ?r = [cand]
      \<and> functionCalls ?r = Some (fc # fcs)
      \<and> map fc_name (fc # fcs) = [''f'', ''g'']
      \<and> cand_parts cand = [TextPart ''hi'', FunctionCallPart (fc_name fc) (fc_args fc)]"
    using two_calls_example_step c f p' n by (intro conjI)
  then show ?thesis
    by (intro exI)
qed

section \<open>Properties of auth resolution\<close>

text \<open>
  C3. With the provider set to \<open>openai\<close>, \<open>deepseek\<close> or \<open>ollama\<close>, the auth type the
  function settles on is \<open>USE_OPENAI\<close>, the same for the three, whatever the
  environment holds and whatever auth type was configured. The function then either
  hands \<open>USE_OPENAI\<close> to \<open>refreshAuth\<close> or exits because \<open>validateAuthMethod\<close>
  rejects \<open>USE_OPENAI\<close>; it never selects another auth type.
\<close>

theorem provider_overrides_environment:
  "effectiveAuthType configuredAuthType (Some ''openai'') env = Some USE_OPENAI
   \<and> effectiveAuthType configuredAuthType (Some ''deepseek'') env = Some USE_OPENAI
   \<and> effectiveAuthType configuredAuthType (Some ''ollama'') env = Some USE_OPENAI
   \<and> validateNonInteractiveAuth validateAuthMethod configuredAuthType useExternalAuth
         (Some ''openai'') env
       = (if useExternalAuth = Some True then Inr USE_OPENAI
          else case validateAuthMethod USE_OPENAI of
                 Some err \<Rightarrow> Inl (InvalidAuthMethod err)
               | None \<Rightarrow> Inr USE_OPENAI)
   \<and> validateNonInteractiveAuth validateAuthMethod configuredAuthType useExternalAuth
         (Some ''deepseek'') env
       = validateNonInteractiveAuth validateAuthMethod configuredAuthType useExternalAuth
           (Some ''openai'') env
   \<and> validateNonInteractiveAuth validateAuthMethod configuredAuthType useExternalAuth
         (Some ''ollama'') env
       = validateNonInteractiveAuth validateAuthMethod configuredAuthType useExternalAuth
           (Some ''openai'') env"
  by (simp add: validateNonInteractiveAuth_def effectiveAuthType_def truthy_def)

theorem provider_overrides_environment_witness:
  "validateNonInteractiveAuth (\<lambda>_. None) (Some USE_GEMINI) None (Some ''ollama'')
     [''GEMINI_API_KEY'' \<mapsto> ''key'', ''GOOGLE_GENAI_USE_GCA'' \<mapsto> ''true'']
   = Inr USE_OPENAI
   \<and> getAuthTypeFromEnv [''GEMINI_API_KEY'' \<mapsto> ''key'', ''GOOGLE_GENAI_USE_GCA'' \<mapsto> ''true'']
       = Some LOGIN_WITH_GOOGLE"
  using provider_overrides_environment
          [of "Some USE_GEMINI"
              "[''GEMINI_API_KEY'' \<mapsto> ''key'', ''GOOGLE_GENAI_USE_GCA'' \<mapsto> ''true'']"
              "\<lambda>_. None" None]
  by (simp add: getAuthTypeFromEnv_def)

text \<open>
  C4. With no provider (or the provider \<open>gemini\<close>) and no configured auth type, the
  auth type comes from the environment, in this order: the Google-OAuth flag, the
  Vertex-AI flag, a Gemini API key, an OpenAI-compatible API key. When none of the four
  is there the function exits, whatever \<open>validateAuthMethod\<close> and \<open>useExternalAuth\<close>
  are; it makes no second attempt.
\<close>

theorem environment_priority:
  assumes "\<not> truthy provider \<or> provider = Some ''gemini''"
  shows "(env ''GOOGLE_GENAI_USE_GCA'' = Some ''true''
            \<longrightarrow> effectiveAuthType None provider env = Some LOGIN_WITH_GOOGLE)
       \<and> (env ''GOOGLE_GENAI_USE_GCA'' \<noteq> Some ''true''
            \<and> env ''GOOGLE_GENAI_USE_VERTEXAI'' = Some ''true''
            \<longrightarrow> effectiveAuthType None provider env = Some USE_VERTEX_AI)
       \<and> (env ''GOOGLE_GENAI_USE_GCA'' \<noteq> Some ''true''
            \<and> env ''GOOGLE_GENAI_USE_VERTEXAI'' \<noteq> Some ''true''
            \<and> truthy (env ''GEMINI_API_KEY'')
            \<longrightarrow> effectiveAuthType None provider env = Some USE_GEMINI)
       \<and> (env ''GOOGLE_GENAI_USE_GCA'' \<noteq> Some ''true''
            \<and> env ''GOOGLE_GENAI_USE_VERTEXAI'' \<noteq> Some ''true''
            \<and> \<not> truthy (env ''GEMINI_API_KEY'')
            \<and> truthy (env ''OPENAI_API_KEY'')
            \<longrightarrow> effectiveAuthType None provider env = Some USE_OPENAI)
       \<and> (env ''GOOGLE_GENAI_USE_GCA'' \<noteq> Some ''true''
            \<and> env ''GOOGLE_GENAI_USE_VERTEXAI'' \<noteq> Some ''true''
            \<and> \<not> truthy (env ''GEMINI_API_KEY'')
            \<and> \<not> truthy (env ''OPENAI_API_KEY'')
            \<longrightarrow> validateNonInteractiveAuth validateAuthMethod None useExternalAuth provider env
                = Inl UnresolvedAuth)
       \<and> validateNonInteractiveAuth (\<lambda>_. None) None useExternalAuth provider env
           = (case getAuthTypeFromEnv env of None \<Rightarrow> Inl UnresolvedAuth | Some a \<Rightarrow> Inr a)"
  using assms
  by (auto simp: validateNonInteractiveAuth_def effectiveAuthType_def getAuthTypeFromEnv_def)

theorem environment_priority_witness:
  "\<not> truthy None
   \<and> effectiveAuthType None None
         [''GOOGLE_GENAI_USE_GCA'' \<mapsto> ''true'', ''GOOGLE_GENAI_USE_VERTEXAI'' \<mapsto> ''true'',
          ''GEMINI_API_KEY'' \<mapsto> ''g'', ''OPENAI_API_KEY'' \<mapsto> ''o'']
       = Some LOGIN_WITH_GOOGLE
   \<and> effectiveAuthType None None
         [''GOOGLE_GENAI_USE_VERTEXAI'' \<mapsto> ''true'',
          ''GEMINI_API_KEY'' \<mapsto> ''g'', ''OPENAI_API_KEY'' \<mapsto> ''o'']
       = Some USE_VERTEX_AI
   \<and> effectiveAuthType None None [''GEMINI_API_KEY'' \<mapsto> ''g'', ''OPENAI_API_KEY'' \<mapsto> ''o'']
       = Some USE_GEMINI
   \<and> effectiveAuthType None None [''OPENAI_API_KEY'' \<mapsto> ''o''] = Some USE_OPENAI
   \<and> validateNonInteractiveAuth (\<lambda>_. None) None (Some True) None Map.empty
       = Inl UnresolvedAuth"
proof -
  have p: "\<not> truthy None \<or> None = Some ''gemini''"
    by (simp add: truthy_def)
  note t = environment_priority [OF p]
  have "effectiveAuthType None None
         [''GOOGLE_GENAI_USE_GCA'' \<mapsto> ''true'', ''GOOGLE_GENAI_USE_VERTEXAI'' \<mapsto> ''true'',
          ''GEMINI_API_KEY'' \<mapsto> ''g'', ''OPENAI_API_KEY'' \<mapsto> ''o'']
       = Some LOGIN_WITH_GOOGLE"
    using t [of "[''GOOGLE_GENAI_USE_GCA'' \<mapsto> ''true'', ''GOOGLE_GENAI_USE_VERTEXAI'' \<mapsto> ''true'',
          ''GEMINI_API_KEY'' \<mapsto> ''g'', ''OPENAI_API_KEY'' \<mapsto> ''o'']"]
    by simp
  moreover have "effectiveAuthType None None
         [''GOOGLE_GENAI_USE_VERTEXAI'' \<mapsto> ''true'',
          ''GEMINI_API_KEY'' \<mapsto> ''g'', ''OPENAI_API_KEY'' \<mapsto> ''o'']
       = Some USE_VERTEX_AI"
    using t [of "[''GOOGLE_GENAI_USE_VERTEXAI'' \<mapsto> ''true'',
          ''GEMINI_API_KEY'' \<mapsto> ''g'', ''OPENAI_API_KEY'' \<mapsto> ''o'']"]
    by simp
  moreover have "effectiveAuthType None None
         [''GEMINI_API_KEY'' \<mapsto> ''g'', ''OPENAI_API_KEY'' \<mapsto> ''o''] = Some USE_GEMINI"
    using t [of "[''GEMINI_API_KEY'' \<mapsto> ''g'', ''OPENAI_API_KEY'' \<mapsto> ''o'']"]
    by (simp add: truthy_def)
  moreover have "effectiveAuthType None None [''OPENAI_API_KEY'' \<mapsto> ''o''] = Some USE_OPENAI"
    using t [of "[''OPENAI_API_KEY'' \<mapsto> ''o'']"]
    by (simp add: truthy_def)
  moreover have "validateNonInteractiveAuth (\<lambda>_. None) None (Some True) None Map.empty
       = Inl UnresolvedAuth"
    using t [of Map.empty "\<lambda>_. None" "Some True"]
    by (simp add: truthy_def)
  moreover have "\<not> truthy None"
    by (simp add: truthy_def)
  ultimately show ?thesis
    by (intro conjI)
qed

section \<open>Properties of the generator factory\<close>

lemma endsWith_append: "endsWith (s @ suffix) suffix"
  by (simp add: endsWith_def)

text \<open>
  The Ollama branch of the factory asks for no API key and always succeeds; it passes
  the empty key, and a base URL that is the configured one (else the environment's, else
  the default) with \<open>/v1\<close> appended, so the base URL always ends with \<open>/v1\<close>.
\<close>

lemma createContentGenerator_ollama:
  assumes "cg_provider config = Some ''ollama''"
  shows "createContentGenerator config env =
           Inr (OpenAIContentGenerator []
                  (orElse (Some (cg_model config)) (orElse (env ''OLLAMA_MODEL'') ''llama2''))
                  (Some ''ollama'')
                  (Some (orElse (cg_baseURL config)
                           (orElse (env ''OLLAMA_BASE_URL'') ''http://localhost:11434'')
                         @ ''/v1'')))"
  using assms by (simp add: createContentGenerator_def orElse_def Let_def)

lemma createContentGenerator_byProvider_ollama:
  assumes "cg_provider config = Some ''ollama''"
  shows "createContentGenerator_byProvider config env =
           Inr (OpenAIContentGenerator []
                  (orElse (Some (cg_model config)) (orElse (env ''OLLAMA_MODEL'') ''llama2''))
                  (Some ''ollama'')
                  (Some (orElse (cg_baseURL config)
                           (orElse (env ''OLLAMA_BASE_URL'') ''http://localhost:11434'')
                         @ ''/v1'')))"
  using assms by (simp add: createContentGenerator_byProvider_def orElse_def Let_def)

text \<open>
  The client of the adapter, for the provider \<open>ollama\<close>: the base URL ends with
  \<open>/v1\<close>, and it is the configured one when that already ends with \<open>/v1\<close>.
\<close>

lemma getOpenAI_ollama:
  assumes "ac_provider config = Ollama"
  shows "endsWith (oc_baseURL (getOpenAI config)) ''/v1''"
    and "oc_baseURL (getOpenAI config) =
           (if endsWith (ac_baseUrl config) ''/v1'' then ac_baseUrl config
            else stripTrailingSlashes (ac_baseUrl config) @ ''/v1'')"
    and "oc_apiKey (getOpenAI config) = orElse (ac_apiKey config) ''dummy-key''"
  using assms by (simp_all add: getOpenAI_def Let_def endsWith_append)

text \<open>
  C5. Both versions of the factory build the Ollama generator without an API key, and
  its base URL ends with \<open>/v1\<close>. But they append \<open>/v1\<close> without looking at the
  configured base URL: a configured base URL that already ends with \<open>/v1\<close> ends up
  with the suffix twice, where the adapter's own client (\<open>getOpenAI\<close>) leaves such a
  URL as it is.
\<close>

theorem ollama_suffix_appended_twice:
  "createContentGenerator
     \<lparr>cg_model = ''llama2'', cg_apiKey = None, cg_vertexai = None, cg_authType = None,
      cg_provider = Some ''ollama'', cg_baseURL = Some ''http://localhost:11434/v1''\<rparr> env
   = Inr (OpenAIContentGenerator [] ''llama2'' (Some ''ollama'')
            (Some ''http://localhost:11434/v1/v1''))
   \<and> createContentGenerator_byProvider
     \<lparr>cg_model = ''llama2'', cg_apiKey = None, cg_vertexai = None, cg_authType = None,
      cg_provider = Some ''ollama'', cg_baseURL = Some ''http://localhost:11434/v1''\<rparr> env
   = Inr (OpenAIContentGenerator [] ''llama2'' (Some ''ollama'')
            (Some ''http://localhost:11434/v1/v1''))
   \<and> oc_baseURL (getOpenAI \<lparr>ac_provider = Ollama, ac_model = ''llama2'',
                             ac_baseUrl = ''http://localhost:11434/v1'',
                             ac_apiKey = None, ac_apiVersion = None\<rparr>)
       = ''http://localhost:11434/v1''"
  by (simp add: createContentGenerator_ollama createContentGenerator_byProvider_ollama
      getOpenAI_ollama orElse_def endsWith_def)

lemma createContentGenerator_openai_needs_key:
  "createContentGenerator
     \<lparr>cg_model = m, cg_apiKey = None, cg_vertexai = v, cg_authType = a,
      cg_provider = Some ''openai'', cg_baseURL = b\<rparr> env
   = Inl (ApiKeyRequired ''OpenAI API key is required'')"
  by (simp add: createContentGenerator_def orElse_def truthy_def Let_def)

section \<open>Properties of the request translator\<close>

lemma find_split:
  "find P xs = Some x \<Longrightarrow>
   \<exists>ys zs. xs = ys @ x # zs \<and> P x \<and> list_all (\<lambda>y. \<not> P y) ys"
proof (induction xs)
  case Nil
  then show ?case by simp
next
  case (Cons a xs)
  show ?case
  proof (cases "P a")
    case True
    with Cons.prems have "a = x" by simp
    with True have "a # xs = [] @ x # xs \<and> P x \<and> list_all (\<lambda>y. \<not> P y) []" by simp
    then show ?thesis by blast
  next
    case False
    with Cons obtain ys zs where "xs = ys @ x # zs" "P x" "list_all (\<lambda>y. \<not> P y) ys"
      by auto
    with False have "a # xs = (a # ys) @ x # zs \<and> P x \<and> list_all (\<lambda>y. \<not> P y) (a # ys)"
      by simp
    then show ?thesis by blast
  qed
qed

lemma find_exists: "q \<in> set xs \<Longrightarrow> P q \<Longrightarrow> \<exists>x. find P xs = Some x"
  by (induction xs) auto

text \<open>
  C6. A message one of whose parts holds a function response becomes a provider message
  with the role \<open>tool\<close>. The response used is that of the first such part: the
  \<open>tool_call_id\<close> is its id, and the content is made from its payload: a string as it
  is; of an object the \<open>output\<close> field through \<open>String\<close> if there is one, else the
  \<open>content\<close> field through \<open>String\<close> if there is one, else the whole object through
  \<open>JSON.stringify\<close>; an array through \<open>JSON.stringify\<close>. The message takes the place
  of its entry in the translated sequence.
\<close>

theorem function_response_becomes_tool_message:
  assumes "c_parts c = Some parts"
    and "q \<in> set parts"
    and "p_functionResponse q \<noteq> None"
  shows "\<exists>before p after fr.
           parts = before @ p # after
         \<and> list_all (\<lambda>x. p_functionResponse x = None) before
         \<and> p_functionResponse p = Some fr
         \<and> m_role (toMessage toStr stringify c) = Some ''tool''
         \<and> m_tool_call_id (toMessage toStr stringify c) = fr_id fr
         \<and> (\<forall>s. fr_response fr = Some (JString s)
                \<longrightarrow> m_content (toMessage toStr stringify c) = Some s)
         \<and> (\<forall>kvs v. fr_response fr = Some (JObject kvs) \<and> map_of kvs ''output'' = Some v
                \<longrightarrow> m_content (toMessage toStr stringify c) = Some (toStr v))
         \<and> (\<forall>kvs v. fr_response fr = Some (JObject kvs) \<and> map_of kvs ''output'' = None
                      \<and> map_of kvs ''content'' = Some v
                \<longrightarrow> m_content (toMessage toStr stringify c) = Some (toStr v))
         \<and> (\<forall>kvs. fr_response fr = Some (JObject kvs) \<and> map_of kvs ''output'' = None
                    \<and> map_of kvs ''content'' = None
                \<longrightarrow> m_content (toMessage toStr stringify c) = Some (stringify (JObject kvs)))
         \<and> (\<forall>vs. fr_response fr = Some (JArray vs)
                \<longrightarrow> m_content (toMessage toStr stringify c) = Some (stringify (JArray vs)))
         \<and> toMessages toStr stringify (Some (cs @ c # ds))
             = map (toMessage toStr stringify) cs @ toMessage toStr stringify c
               # map (toMessage toStr stringify) ds"
proof -
  let ?P = "\<lambda>p. p_functionResponse p \<noteq> None"
  from find_exists [of q parts ?P] assms(2,3) obtain p where f: "find ?P parts = Some p"
    by blast
  from find_split [OF f] obtain before after where
    sp: "parts = before @ p # after" and pp: "?P p"
    and nb: "list_all (\<lambda>y. \<not> ?P y) before"
    by blast
  from pp obtain fr where fr: "p_functionResponse p = Some fr"
    by auto
  from nb have nb': "list_all (\<lambda>x. p_functionResponse x = None) before"
    by simp
  have "findFunctionResponse parts = Some fr"
    using f fr by (simp add: findFunctionResponse_def)
  then have m: "toMessage toStr stringify c =
      \<lparr>m_role = Some ''tool'', m_tool_call_id = fr_id fr,
       m_content = responseContent toStr stringify (fr_response fr)\<rparr>"
    using assms(1) by (simp add: toMessage_def Let_def)
  have "parts = before @ p # after
         \<and> list_all (\<lambda>x. p_functionResponse x = None) before
         \<and> p_functionResponse p = Some fr
         \<and> m_role (toMessage toStr stringify c) = Some ''tool''
         \<and> m_tool_call_id (toMessage toStr stringify c) = fr_id fr
         \<and> (\<forall>s. fr_response fr = Some (JString s)
                \<longrightarrow> m_content (toMessage toStr stringify c) = Some s)
         \<and> (\<forall>kvs v. fr_response fr = Some (JObject kvs) \<and> map_of kvs ''output'' = Some v
                \<longrightarrow> m_content (toMessage toStr stringify c) = Some (toStr v))
         \<and> (\<forall>kvs v. fr_response fr = Some (JObject kvs) \<and> map_of kvs ''output'' = None
                      \<and> map_of kvs ''content'' = Some v
                \<longrightarrow> m_content (toMessage toStr stringify c) = Some (toStr v))
         \<and> (\<forall>kvs. fr_response fr = Some (JObject kvs) \<and> map_of kvs ''output'' = None
                    \<and> map_of kvs ''content'' = None
                \<longrightarrow> m_content (toMessage toStr stringify c) = Some (stringify (JObject kvs)))
         \<and> (\<forall>vs. fr_response fr = Some (JArray vs)
                \<longrightarrow> m_content (toMessage toStr stringify c) = Some (stringify (JArray vs)))
         \<and> toMessages toStr stringify (Some (cs @ c # ds))
             = map (toMessage toStr stringify) cs @ toMessage toStr stringify c
               # map (toMessage toStr stringify) ds"
    using sp nb' fr by (simp add: m responseContent_def toMessages_def)
  then show ?thesis
    by (intro exI)
qed

lemma tool_message_example:
  "toMessages String_js JSON_stringify
     (Some [\<lparr>c_role = Some ''user'',
             c_parts = Some [\<lparr>p_text = Some ''see the result'', p_functionCall = None,
                              p_functionResponse = None\<rparr>,
                             \<lparr>p_text = None, p_functionCall = None,
                              p_functionResponse =
                                Some \<lparr>fr_id = Some ''call_1'',
                                      fr_response =
                                        Some (JObject [(''content'', JString ''c''),
                                                       (''output'', JNumber 42)])\<rparr>\<rparr>]\<rparr>,
            \<lparr>c_role = Some ''model'',
             c_parts = Some [\<lparr>p_text = Some ''a'', p_functionCall = None,
                              p_functionResponse = None\<rparr>,
                             \<lparr>p_text = Some ''b'', p_functionCall = None,
                              p_functionResponse = None\<rparr>]\<rparr>,
            \<lparr>c_role = Some ''user'',
             c_parts = Some [\<lparr>p_text = None, p_functionCall = None,
                              p_functionResponse =
                                Some \<lparr>fr_id = Some ''call_2'',
                                      fr_response =
                                        Some (JObject [(''error'', JString ''no'')])\<rparr>\<rparr>]\<rparr>])
   = [\<lparr>m_role = Some ''tool'', m_tool_call_id = Some ''call_1'', m_content = Some ''42''\<rparr>,
      \<lparr>m_role = Some ''assistant'', m_tool_call_id = None, m_content = Some ''ab''\<rparr>,
      \<lparr>m_role = Some ''tool'', m_tool_call_id = Some ''call_2'',
        m_content = Some ''{\"error\":\"no\"}''\<rparr>]"
  by code_simp

theorem function_response_becomes_tool_message_witness:
  "\<exists>p fr.
      p_functionResponse p = Some fr
    \<and> [\<lparr>p_text = Some ''see the result'', p_functionCall = None, p_functionResponse = None\<rparr>,
        \<lparr>p_text = None, p_functionCall = None,
         p_functionResponse =
           Some \<lparr>fr_id = Some ''call_1'',
                 fr_response = Some (JObject [(''content'', JString ''c''),
                                              (''output'', JNumber 42)])\<rparr>\<rparr>]
       = [\<lparr>p_text = Some ''see the result'', p_functionCall = None, p_functionResponse = None\<rparr>,
          p]
    \<and> m_role (toMessage String_js JSON_stringify
               \<lparr>c_role = Some ''user'',
                c_parts = Some [\<lparr>p_text = Some ''see the result'', p_functionCall = None,
                                 p_functionResponse = None\<rparr>,
                                \<lparr>p_text = None, p_functionCall = None,
                                 p_functionResponse =
                                   Some \<lparr>fr_id = Some ''call_1'',
                                         fr_response =
                                           Some (JObject [(''content'', JString ''c''),
                                                          (''output'', JNumber 42)])\<rparr>\<rparr>]\<rparr>)
       = Some ''tool''
    \<and> m_tool_call_id (toMessage String_js JSON_stringify
               \<lparr>c_role = Some ''user'',
                c_parts = Some [\<lparr>p_text = Some ''see the result'', p_functionCall = None,
                                 p_functionResponse = None\<rparr>,
                                \<lparr>p_text = None, p_functionCall = None,
                                 p_functionResponse =
                                   Some \<lparr>fr_id = Some ''call_1'',
                                         fr_response =
                                           Some (JObject [(''content'', JString ''c''),
                                                          (''output'', JNumber 42)])\<rparr>\<rparr>]\<rparr>)
       = fr_id fr"
proof -
  let ?fr = "\<lparr>fr_id = Some ''call_1'',
              fr_response = Some (JObject [(''content'', JString ''c''), (''output'', JNumber 42)])\<rparr>"
  let ?txt = "\<lparr>p_text = Some ''see the result'', p_functionCall = None, p_functionResponse = None\<rparr>"
  let ?p = "\<lparr>p_text = None, p_functionCall = None, p_functionResponse = Some ?fr\<rparr>"
  let ?c = "\<lparr>c_role = Some ''user'', c_parts = Some [?txt, ?p]\<rparr>"
  have h1: "c_parts ?c = Some [?txt, ?p]" by simp
  have h2: "?p \<in> set [?txt, ?p]" by simp
  have h3: "p_functionResponse ?p \<noteq> None" by simp
  from function_response_becomes_tool_message [OF h1 h2 h3, of String_js JSON_stringify "[]" "[]"]
  obtain before p after fr where
    sp: "[?txt, ?p] = before @ p # after"
    and nb: "list_all (\<lambda>x. p_functionResponse x = None) before"
    and fr: "p_functionResponse p = Some fr"
    and role: "m_role (toMessage String_js JSON_stringify ?c) = Some ''tool''"
    and ident: "m_tool_call_id (toMessage String_js JSON_stringify ?c) = fr_id fr"
    by blast
  from sp nb fr have "before = [?txt]"
    by (cases before; cases "tl before") auto
  with sp have "[?txt, ?p] = [?txt, p]"
    by simp
  with fr role ident
  have "p_functionResponse p = Some fr \<and> [?txt, ?p] = [?txt, p]
        \<and> m_role (toMessage String_js JSON_stringify ?c) = Some ''tool''
        \<and> m_tool_call_id (toMessage String_js JSON_stringify ?c) = fr_id fr"
    by (intro conjI)
  then show ?thesis
    by (intro exI)
qed

section \<open>Properties of the provider request\<close>

lemma addTools_other:
  "k \<noteq> ''tools'' \<Longrightarrow> k \<noteq> ''tool_choice'' \<Longrightarrow>
   addTools convertToOpenAITools adapter config rc k = rc k"
  by (simp add: addTools_def Let_def split: option.splits)

lemma addOptional_forwarded:
  assumes "rc ''temperature'' = None" and "rc ''max_tokens'' = None" and "rc ''top_p'' = None"
  shows "addOptional config rc ''temperature'' = map_option RJson (configField config ''temperature'')"
    and "addOptional config rc ''max_tokens'' = map_option RJson (configField config ''maxOutputTokens'')"
    and "addOptional config rc ''top_p'' = map_option RJson (configField config ''top_p'')"
  using assms by (simp_all add: addOptional_def Let_def split: option.splits)

lemma addOptional_other:
  "k \<noteq> ''temperature'' \<Longrightarrow> k \<noteq> ''max_tokens'' \<Longrightarrow> k \<noteq> ''top_p'' \<Longrightarrow>
   addOptional config rc k = rc k"
  by (simp add: addOptional_def Let_def split: option.splits)

lemma generateContent_requestConfig_keys:
  assumes "k \<notin> set [''model'', ''messages'', ''temperature'', ''max_tokens'', ''top_p'',
                      ''tools'', ''tool_choice'']"
  shows "generateContent_requestConfig conv adapter msgs config k = None"
  using assms
  by (simp add: generateContent_requestConfig_def addTools_other addOptional_other)

lemma generateContentStream_requestConfig_keys:
  assumes "k \<notin> set [''model'', ''messages'', ''stream'', ''temperature'', ''max_tokens'',
                      ''top_p'', ''tools'', ''tool_choice'']"
  shows "generateContentStream_requestConfig conv adapter msgs config k = None"
  using assms
  by (simp add: generateContentStream_requestConfig_def addTools_other addOptional_other)

text \<open>
  C8, as the code has it. Of the request's configuration exactly three sampling
  parameters reach the provider request: \<open>temperature\<close> and \<open>top_p\<close> under their own
  names and \<open>maxOutputTokens\<close> as \<open>max_tokens\<close>, each only when present, with no
  default for an absent one. No other key of the configuration is forwarded: the
  request has no \<open>top_k\<close>, \<open>repetition_penalty\<close>, \<open>presence_penalty\<close>,
  \<open>frequency_penalty\<close> or \<open>maxOutputTokens\<close> entry, and its keys are among \<open>model\<close>,
  \<open>messages\<close>, \<open>stream\<close>, the three forwarded names, \<open>tools\<close> and \<open>tool_choice\<close>.
\<close>

theorem three_sampling_parameters_forwarded:
  "generateContent_requestConfig conv adapter msgs config ''temperature''
     = map_option RJson (configField config ''temperature'')
   \<and> generateContent_requestConfig conv adapter msgs config ''max_tokens''
     = map_option RJson (configField config ''maxOutputTokens'')
   \<and> generateContent_requestConfig conv adapter msgs config ''top_p''
     = map_option RJson (configField config ''top_p'')
   \<and> generateContent_requestConfig conv adapter msgs config ''top_k'' = None
   \<and> generateContent_requestConfig conv adapter msgs config ''repetition_penalty'' = None
   \<and> generateContent_requestConfig conv adapter msgs config ''presence_penalty'' = None
   \<and> generateContent_requestConfig conv adapter msgs config ''frequency_penalty'' = None
   \<and> generateContent_requestConfig conv adapter msgs config ''maxOutputTokens'' = None
   \<and> dom (generateContent_requestConfig conv adapter msgs config)
       \<subseteq> set [''model'', ''messages'', ''temperature'', ''max_tokens'', ''top_p'',
               ''tools'', ''tool_choice'']
   \<and> generateContentStream_requestConfig conv adapter msgs config ''temperature''
     = map_option RJson (configField config ''temperature'')
   \<and> generateContentStream_requestConfig conv adapter msgs config ''max_tokens''
     = map_option RJson (configField config ''maxOutputTokens'')
   \<and> generateContentStream_requestConfig conv adapter msgs config ''top_p''
     = map_option RJson (configField config ''top_p'')
   \<and> generateContentStream_requestConfig conv adapter msgs config ''top_k'' = None
   \<and> generateContentStream_requestConfig conv adapter msgs config ''repetition_penalty'' = None
   \<and> generateContentStream_requestConfig conv adapter msgs config ''presence_penalty'' = None
   \<and> generateContentStream_requestConfig conv adapter msgs config ''frequency_penalty'' = None
   \<and> generateContentStream_requestConfig conv adapter msgs config ''maxOutputTokens'' = None
   \<and> dom (generateContentStream_requestConfig conv adapter msgs config)
       \<subseteq> set [''model'', ''messages'', ''stream'', ''temperature'', ''max_tokens'', ''top_p'',
               ''tools'', ''tool_choice'']"
proof -
  have d: "dom (generateContent_requestConfig conv adapter msgs config)
       \<subseteq> set [''model'', ''messages'', ''temperature'', ''max_tokens'', ''top_p'',
               ''tools'', ''tool_choice'']"
  proof
    fix k
    assume "k \<in> dom (generateContent_requestConfig conv adapter msgs config)"
    then have "generateContent_requestConfig conv adapter msgs config k \<noteq> None"
      by (simp add: domIff)
    then show "k \<in> set [''model'', ''messages'', ''temperature'', ''max_tokens'', ''top_p'',
                         ''tools'', ''tool_choice'']"
      by (rule contrapos_np) (rule generateContent_requestConfig_keys)
  qed
  have ds: "dom (generateContentStream_requestConfig conv adapter msgs config)
       \<subseteq> set [''model'', ''messages'', ''stream'', ''temperature'', ''max_tokens'', ''top_p'',
               ''tools'', ''tool_choice'']"
  proof
    fix k
    assume "k \<in> dom (generateContentStream_requestConfig conv adapter msgs config)"
    then have "generateContentStream_requestConfig conv adapter msgs config k \<noteq> None"
      by (simp add: domIff)
    then show "k \<in> set [''model'', ''messages'', ''stream'', ''temperature'', ''max_tokens'',
                         ''top_p'', ''tools'', ''tool_choice'']"
      by (rule contrapos_np) (rule generateContentStream_requestConfig_keys)
  qed
  have f: "generateContent_requestConfig conv adapter msgs config ''temperature''
             = map_option RJson (configField config ''temperature'')"
    "generateContent_requestConfig conv adapter msgs config ''max_tokens''
             = map_option RJson (configField config ''maxOutputTokens'')"
    "generateContent_requestConfig conv adapter msgs config ''top_p''
             = map_option RJson (configField config ''top_p'')"
    by (simp_all add: generateContent_requestConfig_def addTools_other addOptional_forwarded)
  have fs: "generateContentStream_requestConfig conv adapter msgs config ''temperature''
             = map_option RJson (configField config ''temperature'')"
    "generateContentStream_requestConfig conv adapter msgs config ''max_tokens''
             = map_option RJson (configField config ''maxOutputTokens'')"
    "generateContentStream_requestConfig conv adapter msgs config ''top_p''
             = map_option RJson (configField config ''top_p'')"
    by (simp_all add: generateContentStream_requestConfig_def addTools_other addOptional_forwarded)
  have n: "generateContent_requestConfig conv adapter msgs config ''top_k'' = None"
    "generateContent_requestConfig conv adapter msgs config ''repetition_penalty'' = None"
    "generateContent_requestConfig conv adapter msgs config ''presence_penalty'' = None"
    "generateContent_requestConfig conv adapter msgs config ''frequency_penalty'' = None"
    "generateContent_requestConfig conv adapter msgs config ''maxOutputTokens'' = None"
    by (simp_all add: generateContent_requestConfig_keys)
  have ns: "generateContentStream_requestConfig conv adapter msgs config ''top_k'' = None"
    "generateContentStream_requestConfig conv adapter msgs config ''repetition_penalty'' = None"
    "generateContentStream_requestConfig conv adapter msgs config ''presence_penalty'' = None"
    "generateContentStream_requestConfig conv adapter msgs config ''frequency_penalty'' = None"
    "generateContentStream_requestConfig conv adapter msgs config ''maxOutputTokens'' = None"
    by (simp_all add: generateContentStream_requestConfig_keys)
  from d ds f fs n ns show ?thesis
    by (intro conjI)
qed

text \<open>
  C8, as the specification has it, fails: a \<open>top_k\<close> that the configuration holds is
  not in the request.
\<close>

theorem sampling_forwarding_counterexample:
  "\<not> (\<forall>conv adapter msgs config k v.
         k \<in> set spec_samplingParams \<and> configField config k = Some v
         \<longrightarrow> generateContent_requestConfig conv adapter msgs config (spec_forwardedName k)
             = Some (RJson v))"
proof
  assume a: "\<forall>conv adapter msgs config k v.
         k \<in> set spec_samplingParams \<and> configField config k = Some v
         \<longrightarrow> generateContent_requestConfig conv adapter msgs config (spec_forwardedName k)
             = Some (RJson v)"
  let ?adapter = "\<lparr>ac_provider = Openai, ac_model = ''gpt-4'', ac_baseUrl = ''https://api.openai.com/v1'',
                   ac_apiKey = Some ''k'', ac_apiVersion = None\<rparr>"
  let ?config = "Some [''top_k'' \<mapsto> JNumber 40]"
  have "''top_k'' \<in> set spec_samplingParams \<and> configField ?config ''top_k'' = Some (JNumber 40)"
    by (simp add: spec_samplingParams_def configField_def)
  with a have "generateContent_requestConfig (\<lambda>_. []) ?adapter [] ?config (spec_forwardedName ''top_k'')
      = Some (RJson (JNumber 40))"
    by blast
  moreover have "generateContent_requestConfig (\<lambda>_. []) ?adapter [] ?config (spec_forwardedName ''top_k'')
      = None"
    by (simp add: generateContent_requestConfig_def spec_forwardedName_def addTools_other
        addOptional_other)
  ultimately show False by simp
qed

lemma request_example:
  "generateContent_requestConfig (\<lambda>_. [])
     \<lparr>ac_provider = Openai, ac_model = ''gpt-4'', ac_baseUrl = ''https://api.openai.com/v1'',
      ac_apiKey = Some ''k'', ac_apiVersion = None\<rparr> []
     (Some [''top_k'' \<mapsto> JNumber 40, ''maxOutputTokens'' \<mapsto> JNumber 256])
   = [''model'' \<mapsto> RString ''gpt-4'', ''messages'' \<mapsto> RMessages [],
      ''max_tokens'' \<mapsto> RJson (JNumber 256)]"
  by (simp add: generateContent_requestConfig_def addTools_def addOptional_def configField_def)

section \<open>Properties of \<open>countTokens\<close>\<close>

text \<open>
  C9, as the code has it. The count is a quarter, rounded up, of the length of the text
  of the first part of the first entry, and is monotone in that length. No other text of
  the request is counted.
\<close>

theorem countTokens_monotone_in_counted_text:
  assumes "length (countedText r1) \<le> length (countedText r2)"
  shows "countTokens r1 \<le> countTokens r2
       \<and> length (countedText r2) \<le> 4 * countTokens r2
       \<and> 4 * countTokens r2 < length (countedText r2) + 4
       \<and> countedText (Some (\<lparr>c_role = role, c_parts = Some (p # ps)\<rparr> # cs))
           = orEmpty (p_text p)"
proof -
  have "countTokens r1 \<le> countTokens r2"
    using assms by (simp add: countTokens_def div_le_mono)
  moreover have "length (countedText r2) \<le> 4 * countTokens r2"
    and "4 * countTokens r2 < length (countedText r2) + 4"
    by (simp_all add: countTokens_def)
  moreover have "countedText (Some (\<lparr>c_role = role, c_parts = Some (p # ps)\<rparr> # cs))
           = orEmpty (p_text p)"
    by (simp add: countedText_def)
  ultimately show ?thesis
    by (intro conjI)
qed

theorem countTokens_monotone_in_counted_text_witness:
  "length (countedText (Some [\<lparr>c_role = Some ''user'',
                                c_parts = Some [\<lparr>p_text = Some ''Hi'', p_functionCall = None,
                                                 p_functionResponse = None\<rparr>]\<rparr>]))
     \<le> length (countedText (Some [\<lparr>c_role = Some ''user'',
                                   c_parts = Some [\<lparr>p_text = Some ''12345678'',
                                                    p_functionCall = None,
                                                    p_functionResponse = None\<rparr>]\<rparr>]))
   \<and> countTokens (Some [\<lparr>c_role = Some ''user'',
                        c_parts = Some [\<lparr>p_text = Some ''Hi'', p_functionCall = None,
                                         p_functionResponse = None\<rparr>]\<rparr>]) = 1
   \<and> countTokens (Some [\<lparr>c_role = Some ''user'',
                        c_parts = Some [\<lparr>p_text = Some ''12345678'', p_functionCall = None,
                                         p_functionResponse = None\<rparr>]\<rparr>]) = 2"
proof -
  let ?r1 = "Some [\<lparr>c_role = Some ''user'',
                    c_parts = Some [\<lparr>p_text = Some ''Hi'', p_functionCall = None,
                                     p_functionResponse = None\<rparr>]\<rparr>]"
  let ?r2 = "Some [\<lparr>c_role = Some ''user'',
                    c_parts = Some [\<lparr>p_text = Some ''12345678'', p_functionCall = None,
                                     p_functionResponse = None\<rparr>]\<rparr>]"
  have h: "length (countedText ?r1) \<le> length (countedText ?r2)"
    by (simp add: countedText_def orEmpty_def)
  have "countTokens ?r1 = 1" "countTokens ?r2 = 2"
    by (simp_all add: countTokens_def countedText_def orEmpty_def)
  with h countTokens_monotone_in_counted_text [OF h] show ?thesis
    by simp
qed

text \<open>
  C9, as the specification has it, fails: a request of one entry with eight characters
  counts two tokens, and a request of two entries with twenty-four characters in all,
  two of them in its first part, counts one.
\<close>

theorem countTokens_not_monotone_in_input_text:
  "\<not> (\<forall>r1 r2. spec_inputTextLength r1 \<le> spec_inputTextLength r2
               \<longrightarrow> countTokens r1 \<le> countTokens r2)"
proof
  assume a: "\<forall>r1 r2. spec_inputTextLength r1 \<le> spec_inputTextLength r2
               \<longrightarrow> countTokens r1 \<le> countTokens r2"
  let ?r1 = "Some [\<lparr>c_role = Some ''user'',
                    c_parts = Some [\<lparr>p_text = Some ''12345678'', p_functionCall = None,
                                     p_functionResponse = None\<rparr>]\<rparr>]"
  let ?r2 = "Some [\<lparr>c_role = Some ''user'',
                    c_parts = Some [\<lparr>p_text = Some ''Hi'', p_functionCall = None,
                                     p_functionResponse = None\<rparr>]\<rparr>,
                   \<lparr>c_role = Some ''model'',
                    c_parts = Some [\<lparr>p_text = Some ''Hello, how can I help?'',
                                     p_functionCall = None, p_functionResponse = None\<rparr>]\<rparr>]"
  have "spec_inputTextLength ?r1 \<le> spec_inputTextLength ?r2"
    by (simp add: spec_inputTextLength_def orEmpty_def)
  with a have "countTokens ?r1 \<le> countTokens ?r2"
    by blast
  moreover have "countTokens ?r1 = 2" "countTokens ?r2 = 1"
    by (simp_all add: countTokens_def countedText_def orEmpty_def)
  ultimately show False by simp
qed

end
